theory Spec2Isabelle
  imports Main
begin

section \<open>The host: kernel links, firewall rules, processes\<close>

text \<open>
  The functions of \<^verbatim>\<open>vnet_manager/operations/interface.py\<close> act on the host through
  pyroute2 (\<^verbatim>\<open>IPRoute\<close>, \<^verbatim>\<open>NDB\<close>), \<^verbatim>\<open>iptables\<close>, \<^verbatim>\<open>psutil\<close> and \<^verbatim>\<open>Popen\<close>.
  The host is an explicit state, passed through every function; a Python exception is
  a value \<open>Inl (exception, host at the raise)\<close>.
\<close>

text \<open>
  \<^verbatim>\<open>OSError\<close> stands for its subclasses \<^verbatim>\<open>FileNotFoundError\<close> and \<^verbatim>\<open>PermissionError\<close>,
  raised when a program cannot be executed.
\<close>

datatype exn = IndexError | KeyError | ValueError | NetlinkError | OSError

datatype kind = Bridge | Veth

datatype oper = Up | Down

record link =
  l_ifname :: string
  l_index :: nat
  l_kind :: kind
  l_state :: oper
  l_address :: string
  l_master :: "nat option"
  l_link :: "nat option"
  l_br_stp_state :: nat

datatype attr = State oper | Address string | Master nat

datatype call =
    LinkAdd string kind "string option"
  | LinkSetIndex nat attr
  | LinkSetName string attr
  | LinkDel string
  | NdbSetStp string nat
  | CheckCall "string list"
  | Popen "string list"

datatype level = DEBUG | INFO | WARNING | ERROR

record host =
  links :: "link list"
  next_index :: nat
  iptables_rules :: "string list list"
  iptables_usable :: bool
  executables :: "string list"
  processes :: "string list list"
  mac_draws :: nat
  calls :: "call list"
  log :: "(level \<times> string) list"

type_synonym 'a result = "(exn \<times> host) + 'a"

text \<open>
  The settings module and the MAC generator are not part of the sources at hand; they
  are parameters: the bridge name prefix, the capture directory, the sequence of
  addresses that successive calls of \<^verbatim>\<open>random_mac_generator\<close> return, and the address
  the kernel gives a new link.
\<close>

record env =
  VNET_BRIDGE_NAME :: string
  VNET_SNIFFER_PCAP_DIR :: string
  random_mac_generator :: "nat \<Rightarrow> string"
  kernel_mac :: "nat \<Rightarrow> string"

definition called :: "call \<Rightarrow> host \<Rightarrow> host" where
  "called c s = s\<lparr>calls := calls s @ [c]\<rparr>"

definition logged :: "level \<Rightarrow> string \<Rightarrow> host \<Rightarrow> host" where
  "logged lv msg s = s\<lparr>log := log s @ [(lv, msg)]\<rparr>"

subsection \<open>IPRoute\<close>

definition link_lookup :: "string \<Rightarrow> host \<Rightarrow> nat list" where
  "link_lookup n s = map l_index (filter (\<lambda>l. l_ifname l = n) (links s))"

definition link_get :: "nat \<Rightarrow> host \<Rightarrow> link option" where
  "link_get i s = find (\<lambda>l. l_index l = i) (links s)"

definition set_attr :: "attr \<Rightarrow> link \<Rightarrow> link" where
  "set_attr a l = (case a of
       State st \<Rightarrow> l\<lparr>l_state := st\<rparr>
     | Address m \<Rightarrow> l\<lparr>l_address := m\<rparr>
     | Master b \<Rightarrow> l\<lparr>l_master := Some b\<rparr>)"

text \<open>
  A request on a link that does not exist is refused by the kernel (NetlinkError).
  A master must be an existing bridge, and a bridge cannot itself be enslaved.
\<close>

definition attr_ok :: "attr \<Rightarrow> link \<Rightarrow> host \<Rightarrow> bool" where
  "attr_ok a l s = (case a of
       Master b \<Rightarrow> (case link_get b s of
                      None \<Rightarrow> False
                    | Some bl \<Rightarrow> l_kind bl = Bridge \<and> l_kind l \<noteq> Bridge)
     | _ \<Rightarrow> True)"

definition link_set_index :: "nat \<Rightarrow> attr \<Rightarrow> host \<Rightarrow> host result" where
  "link_set_index i a s =
     (let s' = called (LinkSetIndex i a) s in
      case link_get i s of
        None \<Rightarrow> Inl (NetlinkError, s')
      | Some l \<Rightarrow>
          if attr_ok a l s
          then Inr (s'\<lparr>links := map (\<lambda>l. if l_index l = i then set_attr a l else l) (links s)\<rparr>)
          else Inl (NetlinkError, s'))"

definition link_set_name :: "string \<Rightarrow> attr \<Rightarrow> host \<Rightarrow> host result" where
  "link_set_name n a s =
     (let s' = called (LinkSetName n a) s in
      case find (\<lambda>l. l_ifname l = n) (links s) of
        None \<Rightarrow> Inl (NetlinkError, s')
      | Some l \<Rightarrow>
          if attr_ok a l s
          then Inr (s'\<lparr>links := map (\<lambda>l. if l_ifname l = n then set_attr a l else l) (links s)\<rparr>)
          else Inl (NetlinkError, s'))"

definition new_link :: "env \<Rightarrow> string \<Rightarrow> nat \<Rightarrow> kind \<Rightarrow> nat option \<Rightarrow> link" where
  "new_link e n i k p =
     \<lparr>l_ifname = n, l_index = i, l_kind = k, l_state = Down, l_address = kernel_mac e i,
      l_master = None, l_link = p, l_br_stp_state = 0\<rparr>"

definition link_add_bridge :: "env \<Rightarrow> string \<Rightarrow> host \<Rightarrow> host result" where
  "link_add_bridge e n s =
     (let s' = called (LinkAdd n Bridge None) s in
      if link_lookup n s \<noteq> [] then Inl (NetlinkError, s')
      else Inr (s'\<lparr>links := links s @ [new_link e n (next_index s) Bridge None],
                    next_index := next_index s + 1\<rparr>))"

text \<open>The kernel registers the peer first, so the peer has the lower index.\<close>

definition link_add_veth :: "env \<Rightarrow> string \<Rightarrow> string \<Rightarrow> host \<Rightarrow> host result" where
  "link_add_veth e n p s =
     (let s' = called (LinkAdd n Veth (Some p)) s; i = next_index s in
      if link_lookup n s \<noteq> [] \<or> link_lookup p s \<noteq> [] \<or> n = p then Inl (NetlinkError, s')
      else Inr (s'\<lparr>links := links s @ [new_link e p i Veth (Some (i + 1)),
                                        new_link e n (i + 1) Veth (Some i)],
                    next_index := i + 2\<rparr>))"

text \<open>
  Deleting one end of a veth pair deletes the other end; the ports of a deleted
  bridge lose their master.
\<close>

definition link_del :: "string \<Rightarrow> host \<Rightarrow> host result" where
  "link_del n s =
     (let s' = called (LinkDel n) s in
      case find (\<lambda>l. l_ifname l = n) (links s) of
        None \<Rightarrow> Inl (NetlinkError, s')
      | Some l \<Rightarrow>
          let gone = (\<lambda>k. l_index k = l_index l \<or> l_link l = Some (l_index k)) in
          Inr (s'\<lparr>links :=
                 map (\<lambda>k. if l_master k = Some (l_index l) then k\<lparr>l_master := None\<rparr> else k)
                   (filter (\<lambda>k. \<not> gone k) (links s))\<rparr>))"

subsection \<open>NDB\<close>

text \<open>
  \<^verbatim>\<open>with ndb.interfaces[name] as i: i.set("br_stp_state", v)\<close>: a KeyError when no
  interface has the name; the commit is refused (NetlinkError) unless it is a bridge.
\<close>

definition ndb_set_stp :: "string \<Rightarrow> nat \<Rightarrow> host \<Rightarrow> host result" where
  "ndb_set_stp n v s =
     (case find (\<lambda>l. l_ifname l = n) (links s) of
        None \<Rightarrow> Inl (KeyError, s)
      | Some l \<Rightarrow>
          let s' = called (NdbSetStp n v) s in
          if l_kind l = Bridge
          then Inr (s'\<lparr>links := map (\<lambda>l. if l_ifname l = n then l\<lparr>l_br_stp_state := v\<rparr> else l)
                                    (links s)\<rparr>)
          else Inl (NetlinkError, s'))"

subsection \<open>Subprocesses\<close>

text \<open>
  \<^verbatim>\<open>shlex.split\<close> (POSIX mode, no comments, \<^verbatim>\<open>whitespace_split\<close>): the state machine of
  \<^verbatim>\<open>shlex.read_token\<close>. White space separates tokens; a quote opens a quoted part that
  ends at the same quote; a backslash escapes the next character, inside double quotes
  only the double quote and the backslash. The end of the input inside a quoted part or
  after a backslash is a ValueError.
\<close>

definition whitespace :: "char \<Rightarrow> bool" where
  "whitespace c = (c \<in> set [CHR '' '', CHR 0x09, CHR 0x0A, CHR 0x0D])"

definition quote :: "char \<Rightarrow> bool" where
  "quote c = (c = CHR 0x27 \<or> c = CHR 0x22)"

definition escape :: "char \<Rightarrow> bool" where
  "escape c = (c = CHR 0x5C)"

datatype lexstate = InSpace | InWord | InQuote char | InEscape "char option"

definition emit :: "string \<Rightarrow> exn + string list \<Rightarrow> exn + string list" where
  "emit token r = (case r of Inl x \<Rightarrow> Inl x | Inr tokens \<Rightarrow> Inr (token # tokens))"

fun read_tokens :: "lexstate \<Rightarrow> bool \<Rightarrow> string \<Rightarrow> string \<Rightarrow> exn + string list" where
  "read_tokens InSpace quoted token [] = Inr (if token \<noteq> [] \<or> quoted then [token] else [])"
| "read_tokens InWord quoted token [] = Inr (if token \<noteq> [] \<or> quoted then [token] else [])"
| "read_tokens (InQuote q) quoted token [] = Inl ValueError"
| "read_tokens (InEscape es) quoted token [] = Inl ValueError"
| "read_tokens InSpace quoted token (c # cs) =
     (if whitespace c
      then (if token \<noteq> [] \<or> quoted then emit token (read_tokens InSpace False [] cs)
            else read_tokens InSpace quoted token cs)
      else if escape c then read_tokens (InEscape None) quoted token cs
      else if quote c then read_tokens (InQuote c) quoted token cs
      else read_tokens InWord quoted [c] cs)"
| "read_tokens InWord quoted token (c # cs) =
     (if whitespace c
      then (if token \<noteq> [] \<or> quoted then emit token (read_tokens InSpace False [] cs)
            else read_tokens InSpace quoted token cs)
      else if quote c then read_tokens (InQuote c) quoted token cs
      else if escape c then read_tokens (InEscape None) quoted token cs
      else read_tokens InWord quoted (token @ [c]) cs)"
| "read_tokens (InQuote q) quoted token (c # cs) =
     (if c = q then read_tokens InWord True token cs
      else if escape c \<and> q = CHR 0x22 then read_tokens (InEscape (Some q)) True token cs
      else read_tokens (InQuote q) True (token @ [c]) cs)"
| "read_tokens (InEscape es) quoted token (c # cs) =
     (case es of
        None \<Rightarrow> read_tokens InWord quoted (token @ [c]) cs
      | Some q \<Rightarrow>
          read_tokens (InQuote q) quoted
            ((if \<not> escape c \<and> c \<noteq> q then token @ [CHR 0x5C] else token) @ [c]) cs)"

definition shlex_split :: "string \<Rightarrow> exn + string list" where
  "shlex_split cmd = read_tokens InSpace False [] cmd"

text \<open>
  \<^verbatim>\<open>check_call\<close>: an OSError when the program cannot be executed (an IndexError on an
  empty argument list); otherwise True is exit status 0 and False is the
  CalledProcessError. \<^verbatim>\<open>iptables -C\<close> succeeds when the chain holds exactly this rule,
  \<^verbatim>\<open>iptables -A\<close> appends it; both fail when iptables cannot be used on the host.
\<close>

definition check_call :: "string list \<Rightarrow> host \<Rightarrow> (bool \<times> host) result" where
  "check_call argv s =
     (let s' = called (CheckCall argv) s in
      case argv of
        [] \<Rightarrow> Inl (IndexError, s')
      | prog # args \<Rightarrow>
          if prog \<notin> set (executables s) then Inl (OSError, s')
          else (case args of
                  opt # rule \<Rightarrow>
                    if prog = ''iptables'' \<and> opt = ''-C''
                    then Inr (iptables_usable s \<and> rule \<in> set (iptables_rules s), s')
                    else if prog = ''iptables'' \<and> opt = ''-A''
                    then (if iptables_usable s
                          then Inr (True, s'\<lparr>iptables_rules := iptables_rules s @ [rule]\<rparr>)
                          else Inr (False, s'))
                    else Inr (False, s')
                | [] \<Rightarrow> Inr (False, s')))"

text \<open>
  \<^verbatim>\<open>Popen\<close>: an OSError when the program cannot be executed; otherwise the new process
  is in the process table with its argument list.
\<close>

definition popen :: "string list \<Rightarrow> host \<Rightarrow> host result" where
  "popen argv s =
     (let s' = called (Popen argv) s in
      case argv of
        [] \<Rightarrow> Inl (IndexError, s')
      | prog # args \<Rightarrow>
          if prog \<notin> set (executables s) then Inl (OSError, s')
          else Inr (s'\<lparr>processes := processes s @ [argv]\<rparr>))"

subsection \<open>Python helpers\<close>

definition digit_char :: "nat \<Rightarrow> char" where
  "digit_char d = ''0123456789'' ! d"

fun str :: "nat \<Rightarrow> string" where
  "str n = (if n < 10 then [digit_char n] else str (n div 10) @ [digit_char (n mod 10)])"

declare str.simps [simp del]

definition int_of_char :: "char \<Rightarrow> int option" where
  "int_of_char c = map_of (zip ''0123456789'' [0, 1, 2, 3, 4, 5, 6, 7, 8, 9]) c"

definition join_comma :: "string list \<Rightarrow> string" where
  "join_comma xs = concat (case xs of [] \<Rightarrow> [] | x # r \<Rightarrow> x # map (\<lambda>y. '', '' @ y) r)"

definition path_join :: "string \<Rightarrow> string \<Rightarrow> string" where
  "path_join a b =
     (if b \<noteq> [] \<and> hd b = CHR ''/'' then b
      else if a = [] \<or> last a = CHR ''/'' then a @ b
      else a @ ''/'' @ b)"

section \<open>The configuration\<close>

record veth_data =
  bridge :: string
  peer :: "string option"
  stp :: "bool option"

record config =
  switches :: int
  machines :: "(string \<times> (string \<times> int) list) list"
  veths :: "(string \<times> veth_data) list option"

section \<open>operations/interface.py\<close>

definition get_vnet_interface_names_from_config :: "env \<Rightarrow> config \<Rightarrow> string list" where
  "get_vnet_interface_names_from_config e cfg =
     map (\<lambda>i. VNET_BRIDGE_NAME e @ str i) [0..<nat (switches cfg)]"

text \<open>
  \<^verbatim>\<open>int(int_data["bridge"]) == int(ifname[-1])\<close>: the last character of the name is
  read as a number; an empty name is an IndexError, a last character that is no digit
  a ValueError, raised at the first interface examined.
\<close>

definition last_char_int :: "string \<Rightarrow> exn + int" where
  "last_char_int ifname =
     (if ifname = [] then Inl IndexError
      else case int_of_char (last ifname) of None \<Rightarrow> Inl ValueError | Some d \<Rightarrow> Inr d)"

definition get_machines_by_vnet_interface_name :: "config \<Rightarrow> string \<Rightarrow> exn + string list" where
  "get_machines_by_vnet_interface_name cfg ifname =
     (let pairs = concat (map (\<lambda>(m_name, ifs). map (\<lambda>(i, b). (m_name, b)) ifs) (machines cfg)) in
      if pairs = [] then Inr []
      else case last_char_int ifname of
             Inl x \<Rightarrow> Inl x
           | Inr d \<Rightarrow> Inr (map fst (filter (\<lambda>(m_name, b). b = d) pairs)))"


fun for_each :: "('a \<Rightarrow> host \<Rightarrow> host result) \<Rightarrow> 'a list \<Rightarrow> host \<Rightarrow> host result" where
  "for_each body [] s = Inr s"
| "for_each body (x # xs) s =
     (case body x s of Inl err \<Rightarrow> Inl err | Inr s' \<Rightarrow> for_each body xs s')"

fun collect :: "('a \<Rightarrow> host \<Rightarrow> ('r \<times> host) result) \<Rightarrow> 'a list \<Rightarrow> host \<Rightarrow> ('r list \<times> host) result" where
  "collect body [] s = Inr ([], s)"
| "collect body (x # xs) s =
     (case body x s of
        Inl err \<Rightarrow> Inl err
      | Inr (r, s') \<Rightarrow>
          (case collect body xs s' of Inl err \<Rightarrow> Inl err | Inr (rs, s'') \<Rightarrow> Inr (r # rs, s'')))"

definition check_if_interface_exists :: "string \<Rightarrow> host \<Rightarrow> bool" where
  "check_if_interface_exists ifname s = (link_lookup ifname s \<noteq> [])"

definition check_if_sniffer_exists :: "string \<Rightarrow> host \<Rightarrow> bool \<times> host" where
  "check_if_sniffer_exists ifname s =
     (if list_ex (\<lambda>process_line. ''tcpdump'' \<in> set process_line \<and> ifname \<in> set process_line)
           (processes s)
      then (True, logged DEBUG (''A TCPdump sniffer for interface '' @ ifname @ '' already exists'') s)
      else (False, s))"

definition show_oper :: "oper \<Rightarrow> string" where
  "show_oper st = (case st of Up \<Rightarrow> ''up'' | Down \<Rightarrow> ''down'')"

definition show_bool :: "bool \<Rightarrow> string" where
  "show_bool b = (if b then ''True'' else ''False'')"

text \<open>One row of \<^verbatim>\<open>show_vnet_interface_status\<close>: the body of its loop.\<close>

definition vnet_interface_status_row :: "config \<Rightarrow> string \<Rightarrow> host \<Rightarrow> (string list \<times> host) result" where
  "vnet_interface_status_row cfg ifname s =
     (case get_machines_by_vnet_interface_name cfg ifname of
        Inl x \<Rightarrow> Inl (x, s)
      | Inr used_by \<Rightarrow>
          (case link_lookup ifname s of
             [] \<Rightarrow> Inr ([ifname, ''NA'', ''NA'', ''NA'', ''NA'', join_comma used_by], s)
           | dev # _ \<Rightarrow>
               (case check_if_sniffer_exists ifname s of
                  (sniffer, s') \<Rightarrow>
                    (case find (\<lambda>l. l_ifname l = ifname) (links s') of
                       None \<Rightarrow> Inl (KeyError, s')
                     | Some info \<Rightarrow>
                         Inr ([ifname, show_oper (l_state info), l_address info, show_bool sniffer,
                               show_bool (l_br_stp_state info \<noteq> 0), join_comma used_by], s')))))"

definition show_vnet_interface_status :: "env \<Rightarrow> config \<Rightarrow> host \<Rightarrow> (string list list \<times> host) result" where
  "show_vnet_interface_status e cfg s =
     (case collect (vnet_interface_status_row cfg) (get_vnet_interface_names_from_config e cfg)
             (logged INFO ''Listing VNet interface statuses'' s) of
        Inl err \<Rightarrow> Inl err
      | Inr (statuses, s') \<Rightarrow>
          Inr ([''Name'', ''Status'', ''L2_addr'', ''Sniffer'', ''STP'', ''Used by''] # statuses, s'))"

text \<open>One row of \<^verbatim>\<open>show_vnet_veth_interface_status\<close>: the body of its loop.\<close>

definition ifname_of_index :: "nat \<Rightarrow> host \<Rightarrow> string result" where
  "ifname_of_index i s = (case link_get i s of None \<Rightarrow> Inl (NetlinkError, s) | Some l \<Rightarrow> Inr (l_ifname l))"

definition vnet_veth_interface_status_row :: "string \<times> veth_data \<Rightarrow> host \<Rightarrow> (string list \<times> host) result" where
  "vnet_veth_interface_status_row nd s =
     (case nd of (name, data) \<Rightarrow>
        (case link_lookup name s of
           [] \<Rightarrow> Inr ([name, ''NA'', ''NA'', ''NA'', bridge data], s)
         | dev # _ \<Rightarrow>
             (case link_get dev s of
                None \<Rightarrow> Inl (NetlinkError, s)
              | Some info \<Rightarrow>
                  (case l_link info of
                     None \<Rightarrow> Inl (IndexError, s)
                   | Some peer_id \<Rightarrow>
                       (case ifname_of_index peer_id s of
                          Inl err \<Rightarrow> Inl err
                        | Inr peer_name \<Rightarrow>
                            (case l_master info of
                               None \<Rightarrow> Inl (IndexError, s)
                             | Some master_id \<Rightarrow>
                                 (case ifname_of_index master_id s of
                                    Inl err \<Rightarrow> Inl err
                                  | Inr master_name \<Rightarrow>
                                      Inr ([name, show_oper (l_state info), l_address info,
                                            peer_name, master_name], s))))))))"

definition show_vnet_veth_interface_status :: "config \<Rightarrow> host \<Rightarrow> (string list list \<times> host) result" where
  "show_vnet_veth_interface_status cfg s =
     (let s0 = logged INFO ''Listing VNet veth interface statuses'' s in
      case veths cfg of
        None \<Rightarrow> Inl (KeyError, s0)
      | Some vs \<Rightarrow>
          (case collect vnet_veth_interface_status_row vs s0 of
             Inl err \<Rightarrow> Inl err
           | Inr (statuses, s') \<Rightarrow>
               Inr ([''Name'', ''Status'', ''L2_addr'', ''Peer'', ''Master''] # statuses, s')))"

definition configure_vnet_interface :: "env \<Rightarrow> string \<Rightarrow> host \<Rightarrow> host result" where
  "configure_vnet_interface e ifname s =
     (case link_lookup ifname s of
        [] \<Rightarrow> Inl (IndexError, s)
      | dev # _ \<Rightarrow>
          (case link_set_index dev (State Down) s of
             Inl err \<Rightarrow> Inl err
           | Inr s1 \<Rightarrow>
               (case link_set_index dev (Address (random_mac_generator e (mac_draws s1)))
                       (s1\<lparr>mac_draws := mac_draws s1 + 1\<rparr>) of
                  Inl err \<Rightarrow> Inl err
                | Inr s2 \<Rightarrow> link_set_index dev (State Up) s2)))"

definition create_vnet_interface :: "env \<Rightarrow> string \<Rightarrow> host \<Rightarrow> host result" where
  "create_vnet_interface e ifname s =
     (case link_add_bridge e ifname (logged INFO (''Creating VNet bridge interface '' @ ifname) s) of
        Inl err \<Rightarrow> Inl err
      | Inr s1 \<Rightarrow> configure_vnet_interface e ifname s1)"

definition create_veth_interface :: "env \<Rightarrow> string \<Rightarrow> veth_data \<Rightarrow> host \<Rightarrow> host result" where
  "create_veth_interface e name data s =
     (case peer data of None \<Rightarrow> Inr s | Some p \<Rightarrow> link_add_veth e name p s)"

definition create_vnet_interface_iptables_rules :: "string \<Rightarrow> host \<Rightarrow> host result" where
  "create_vnet_interface_iptables_rules ifname s =
     (let rule = ''OUTPUT -o '' @ ifname @ '' -j DROP'' in
      case shlex_split (''iptables -C '' @ rule) of
        Inl x \<Rightarrow> Inl (x, s)
      | Inr argv \<Rightarrow>
          (case check_call argv s of
             Inl err \<Rightarrow> Inl err
           | Inr (True, s1) \<Rightarrow>
               Inr (logged DEBUG (''IPtables DROP rule for VNet interface '' @ ifname
                                  @ '' already exists, skipping creation'') s1)
           | Inr (False, s1) \<Rightarrow>
               (let s2 = logged INFO (''Creating IPtables DROP rule to the outside world for VNet interface ''
                                      @ ifname) s1 in
                case shlex_split (''iptables -A '' @ rule) of
                  Inl x \<Rightarrow> Inl (x, s2)
                | Inr argv' \<Rightarrow>
                    (case check_call argv' s2 of
                       Inl err \<Rightarrow> Inl err
                     | Inr (True, s3) \<Rightarrow> Inr s3
                     | Inr (False, s3) \<Rightarrow>
                         Inr (logged ERROR ''Unable to create IPtables rule, got output: None'' s3)))))"

definition configure_veth_interface :: "string \<Rightarrow> veth_data \<Rightarrow> host \<Rightarrow> host result" where
  "configure_veth_interface name data s =
     (let s0 = logged INFO (''Creating VNet veth interface '' @ name) s in
      case link_lookup name s0 of
        [] \<Rightarrow> Inl (IndexError, s0)
      | dev # _ \<Rightarrow>
          (case link_lookup (bridge data) s0 of
             [] \<Rightarrow> Inl (IndexError, s0)
           | br # _ \<Rightarrow> link_set_index dev (Master br) s0))"

definition start_tcpdump_on_vnet_interface :: "env \<Rightarrow> string \<Rightarrow> host \<Rightarrow> host result" where
  "start_tcpdump_on_vnet_interface e ifname s =
     (let path = path_join (VNET_SNIFFER_PCAP_DIR e) (ifname @ ''.pcap'');
          s0 = logged INFO (''Starting sniffer on VNet interface '' @ ifname @ '', PCAP location: '' @ path) s
      in case shlex_split (''tcpdump -i '' @ ifname @ '' -U -w '' @ path) of
           Inl x \<Rightarrow> Inl (x, s0)
         | Inr argv \<Rightarrow> popen argv s0)"

text \<open>The body of the loop of \<^verbatim>\<open>ensure_vnet_veth_interfaces\<close>.\<close>

definition ensure_vnet_veth_interface :: "env \<Rightarrow> string \<times> veth_data \<Rightarrow> host \<Rightarrow> host result" where
  "ensure_vnet_veth_interface e nd s =
     (case nd of (name, data) \<Rightarrow>
        (case (case stp data of
                 None \<Rightarrow> Inr s
               | Some b \<Rightarrow>
                   ndb_set_stp (bridge data) (if b then 1 else 0)
                     (logged INFO ((if b then ''Enabling'' else ''Disabling'')
                                   @ '' STP on VNet interface '' @ bridge data) s)) of
           Inl err \<Rightarrow> Inl err
         | Inr s1 \<Rightarrow>
             (case (if \<not> check_if_interface_exists name s1 then create_veth_interface e name data s1
                    else Inr s1) of
                Inl err \<Rightarrow> Inl err
              | Inr s2 \<Rightarrow>
                  (case configure_veth_interface name data s2 of
                     Inl err \<Rightarrow> Inl err
                   | Inr s3 \<Rightarrow> configure_vnet_interface e name s3))))"

definition ensure_vnet_veth_interfaces :: "env \<Rightarrow> config \<Rightarrow> host \<Rightarrow> host result" where
  "ensure_vnet_veth_interfaces e cfg s =
     (let s0 = logged INFO ''VNet veth config found, ensuring interfaces'' s in
      case veths cfg of
        None \<Rightarrow> Inl (KeyError, s0)
      | Some vs \<Rightarrow> for_each (ensure_vnet_veth_interface e) vs s0)"

text \<open>The body of the first loop of \<^verbatim>\<open>bring_up_vnet_interfaces\<close>.\<close>

definition bring_up_vnet_interface :: "env \<Rightarrow> bool \<Rightarrow> string \<Rightarrow> host \<Rightarrow> host result" where
  "bring_up_vnet_interface e sniffer ifname s =
     (case (if \<not> check_if_interface_exists ifname s then create_vnet_interface e ifname s
            else Inr s) of
        Inl err \<Rightarrow> Inl err
      | Inr s1 \<Rightarrow>
          (case create_vnet_interface_iptables_rules ifname s1 of
             Inl err \<Rightarrow> Inl err
           | Inr s2 \<Rightarrow>
               (case link_set_name ifname (State Up) s2 of
                  Inl err \<Rightarrow> Inl err
                | Inr s3 \<Rightarrow>
                    if sniffer
                    then (case check_if_sniffer_exists ifname s3 of
                            (True, s4) \<Rightarrow> Inr s4
                          | (False, s4) \<Rightarrow> start_tcpdump_on_vnet_interface e ifname s4)
                    else Inr s3)))"

definition bring_up_vnet_interfaces :: "env \<Rightarrow> config \<Rightarrow> bool \<Rightarrow> host \<Rightarrow> host result" where
  "bring_up_vnet_interfaces e cfg sniffer s =
     (case for_each (bring_up_vnet_interface e sniffer) (get_vnet_interface_names_from_config e cfg) s of
        Inl err \<Rightarrow> Inl err
      | Inr s1 \<Rightarrow> if veths cfg \<noteq> None then ensure_vnet_veth_interfaces e cfg s1 else Inr s1)"




text \<open>The bodies of the two loops of \<^verbatim>\<open>delete_vnet_interfaces\<close>.\<close>

definition delete_veth :: "string \<times> veth_data \<Rightarrow> host \<Rightarrow> host result" where
  "delete_veth nd s =
     (case nd of (name, data) \<Rightarrow>
        if peer data \<noteq> None \<and> check_if_interface_exists name s
        then link_del name (logged INFO (''Deleting VNet veth interface '' @ name) s)
        else Inr s)"

definition delete_vnet_interface :: "string \<Rightarrow> host \<Rightarrow> host result" where
  "delete_vnet_interface ifname s =
     (if check_if_interface_exists ifname s
      then link_del ifname (logged INFO (''Deleting VNet interface '' @ ifname) s)
      else Inr (logged INFO (''Tried to delete VNet interface '' @ ifname
                             @ '', but it is already gone. That's okay'') s))"

definition delete_vnet_interfaces :: "env \<Rightarrow> config \<Rightarrow> host \<Rightarrow> host result" where
  "delete_vnet_interfaces e cfg s =
     (case (case veths cfg of
              None \<Rightarrow> Inr s
            | Some vs \<Rightarrow> for_each delete_veth vs s) of
        Inl err \<Rightarrow> Inl err
      | Inr s1 \<Rightarrow> for_each delete_vnet_interface (get_vnet_interface_names_from_config e cfg) s1)"

section \<open>An example host and configuration\<close>

definition two_digits :: "nat \<Rightarrow> string" where
  "two_digits n = [digit_char (n div 10 mod 10), digit_char (n mod 10)]"

definition example_env :: env where
  "example_env =
     \<lparr>VNET_BRIDGE_NAME = ''vnet-br'', VNET_SNIFFER_PCAP_DIR = ''/tmp'',
      random_mac_generator = (\<lambda>k. ''00:16:3e:00:'' @ two_digits (k div 100) @ '':'' @ two_digits k),
      kernel_mac = (\<lambda>i. ''02:42:ac:00:'' @ two_digits (i div 100) @ '':'' @ two_digits i)\<rparr>"

definition empty_host :: host where
  "empty_host =
     \<lparr>links = [], next_index = 1, iptables_rules = [], iptables_usable = True,
      executables = [''iptables'', ''tcpdump''], processes = [], mac_draws = 0, calls = [], log = []\<rparr>"

definition example_config :: config where
  "example_config =
     \<lparr>switches = 2,
      machines = [(''router1'', [(''eth12'', 0), (''eth23'', 1)]), (''host1'', [(''eth12'', 0)])],
      veths = Some [(''vnet-veth1'', \<lparr>bridge = ''vnet-br1'', peer = Some ''vnet-veth0'', stp = Some True\<rparr>),
                    (''vnet-veth0'', \<lparr>bridge = ''vnet-br0'', peer = None, stp = None\<rparr>)]\<rparr>"

section \<open>Notions used in the statements\<close>

definition raised :: "'a result \<Rightarrow> exn option" where
  "raised r = (case r of Inl (x, _) \<Rightarrow> Some x | Inr _ \<Rightarrow> None)"

definition is_popen :: "call \<Rightarrow> bool" where
  "is_popen c = (case c of Popen _ \<Rightarrow> True | _ \<Rightarrow> False)"

text \<open>The kernel keeps interface names and indices unique, and hands out new indices.\<close>

definition wf_host :: "host \<Rightarrow> bool" where
  "wf_host s = (distinct (map l_ifname (links s)) \<and> distinct (map l_index (links s))
                \<and> list_all (\<lambda>l. l_index l < next_index s) (links s))"

text \<open>
  The words that a command line passes on unchanged: not empty, and free of white space,
  quotes and backslashes.
\<close>

definition plain :: "char \<Rightarrow> bool" where
  "plain c = (\<not> whitespace c \<and> \<not> quote c \<and> \<not> escape c)"

definition word :: "string \<Rightarrow> bool" where
  "word w = (w \<noteq> [] \<and> list_all plain w)"

definition is_check_call :: "call \<Rightarrow> bool" where
  "is_check_call c = (case c of CheckCall _ \<Rightarrow> True | _ \<Rightarrow> False)"

definition errors :: "host \<Rightarrow> (level \<times> string) list" where
  "errors s = filter (\<lambda>(lv, msg). lv = ERROR) (log s)"

definition drop_rule :: "string \<Rightarrow> string list" where
  "drop_rule ifname = [''OUTPUT'', ''-o'', ifname, ''-j'', ''DROP'']"


text \<open>
  Two hosts have the same interfaces when they have the same links in the same order up
  to the attributes that a set request writes (state, address, master, STP state).
\<close>

definition skeleton :: "link \<Rightarrow> string \<times> nat \<times> kind \<times> nat option" where
  "skeleton l = (l_ifname l, l_index l, l_kind l, l_link l)"

definition same_interfaces :: "host \<Rightarrow> host \<Rightarrow> bool" where
  "same_interfaces s s' =
     (map skeleton (links s') = map skeleton (links s) \<and> next_index s' = next_index s)"

definition same_outside :: "host \<Rightarrow> host \<Rightarrow> bool" where
  "same_outside s s' =
     (iptables_rules s' = iptables_rules s \<and> iptables_usable s' = iptables_usable s
      \<and> executables s' = executables s \<and> processes s' = processes s)"

definition kind_of :: "string \<Rightarrow> host \<Rightarrow> kind option" where
  "kind_of n s = map_option l_kind (find (\<lambda>l. l_ifname l = n) (links s))"

definition host_at :: "host result \<Rightarrow> host" where
  "host_at r = (case r of Inl (_, s) \<Rightarrow> s | Inr s \<Rightarrow> s)"

text \<open>A host on which the two switch bridges of the example are up.\<close>

definition bridges_host :: host where
  "bridges_host =
     \<lparr>links = [\<lparr>l_ifname = ''vnet-br0'', l_index = 1, l_kind = Bridge, l_state = Up,
                l_address = ''00:16:3e:00:00:00'', l_master = None, l_link = None,
                l_br_stp_state = 0\<rparr>,
               \<lparr>l_ifname = ''vnet-br1'', l_index = 2, l_kind = Bridge, l_state = Up,
                l_address = ''00:16:3e:00:00:01'', l_master = None, l_link = None,
                l_br_stp_state = 0\<rparr>],
      next_index = 3,
      iptables_rules = [[''OUTPUT'', ''-o'', ''vnet-br0'', ''-j'', ''DROP''],
                        [''OUTPUT'', ''-o'', ''vnet-br1'', ''-j'', ''DROP'']],
      iptables_usable = True, executables = [''iptables'', ''tcpdump''], processes = [],
      mac_draws = 2, calls = [], log = []\<rparr>"

text \<open>A configuration whose first veth names a bridge that is not there.\<close>

definition missing_bridge_config :: config where
  "missing_bridge_config =
     \<lparr>switches = 1, machines = [],
      veths = Some [(''veth-a'', \<lparr>bridge = ''br-ext'', peer = Some ''veth-a-peer'', stp = None\<rparr>),
                    (''veth-b'', \<lparr>bridge = ''vnet-br0'', peer = Some ''veth-b-peer'', stp = None\<rparr>)]\<rparr>"

text \<open>The same host once the pair \<^verbatim>\<open>vnet-veth1\<close>/\<^verbatim>\<open>vnet-veth0\<close> has been added by the kernel.\<close>

definition veth_host :: host where
  "veth_host =
     bridges_host\<lparr>links := links bridges_host @
        [\<lparr>l_ifname = ''vnet-veth0'', l_index = 3, l_kind = Veth, l_state = Down,
          l_address = ''02:42:ac:00:00:03'', l_master = None, l_link = Some 4,
          l_br_stp_state = 0\<rparr>,
         \<lparr>l_ifname = ''vnet-veth1'', l_index = 4, l_kind = Veth, l_state = Down,
          l_address = ''02:42:ac:00:00:04'', l_master = None, l_link = Some 3,
          l_br_stp_state = 0\<rparr>],
      next_index := 5\<rparr>"

text \<open>A configuration whose only veth has no peer.\<close>

definition peerless_config :: config where
  "peerless_config =
     \<lparr>switches = 1, machines = [],
      veths = Some [(''uplink0'', \<lparr>bridge = ''vnet-br0'', peer = None, stp = None\<rparr>)]\<rparr>"



section \<open>Basic facts\<close>

lemma called_fields [simp]:
  "links (called c s) = links s" "next_index (called c s) = next_index s"
  "iptables_rules (called c s) = iptables_rules s" "iptables_usable (called c s) = iptables_usable s"
  "processes (called c s) = processes s" "mac_draws (called c s) = mac_draws s"
  "calls (called c s) = calls s @ [c]" "log (called c s) = log s"
  "executables (called c s) = executables s"
  by (simp_all add: called_def)

lemma logged_fields [simp]:
  "links (logged lv m s) = links s" "next_index (logged lv m s) = next_index s"
  "iptables_rules (logged lv m s) = iptables_rules s" "iptables_usable (logged lv m s) = iptables_usable s"
  "processes (logged lv m s) = processes s" "mac_draws (logged lv m s) = mac_draws s"
  "calls (logged lv m s) = calls s" "log (logged lv m s) = log s @ [(lv, m)]"
  "executables (logged lv m s) = executables s"
  by (simp_all add: logged_def)

lemma link_lookup_cong: "links s' = links s \<Longrightarrow> link_lookup n s' = link_lookup n s"
  by (simp add: link_lookup_def)

lemma exists_cong: "links s' = links s \<Longrightarrow> check_if_interface_exists n s' = check_if_interface_exists n s"
  by (simp add: check_if_interface_exists_def link_lookup_def)

lemma str_nonempty: "str n \<noteq> []"
  by (subst str.simps) simp

lemma last_str: "last (str n) = digit_char (n mod 10)"
  by (subst str.simps) simp

lemma int_of_digit_char: "d < 10 \<Longrightarrow> int_of_char (digit_char d) = Some (int d)"
proof -
  assume "d < 10"
  then have "d \<in> {0,1,2,3,4,5,6,7,8,9}" by auto
  then show ?thesis
    by (auto simp: int_of_char_def digit_char_def)
qed

lemma last_char_int_name: "last_char_int (p @ str i) = Inr (int (i mod 10))"
  by (simp add: last_char_int_def str_nonempty last_str int_of_digit_char)

lemma machines_total: "\<exists>u. get_machines_by_vnet_interface_name cfg (p @ str i) = Inr u"
  by (simp add: get_machines_by_vnet_interface_name_def last_char_int_name Let_def)

lemma find_name_Some: "link_lookup n s \<noteq> [] \<Longrightarrow> \<exists>l. find (\<lambda>l. l_ifname l = n) (links s) = Some l"
  by (cases "find (\<lambda>l. l_ifname l = n) (links s)") (auto simp: link_lookup_def find_None_iff filter_empty_conv)

lemma sniffer_links [simp]: "links (snd (check_if_sniffer_exists n s)) = links s"
  by (simp add: check_if_sniffer_exists_def)

lemma bridge_row_total:
  "\<exists>r s'. vnet_interface_status_row cfg (p @ str i) s = Inr (r, s') \<and> links s' = links s"
proof -
  obtain u where u: "get_machines_by_vnet_interface_name cfg (p @ str i) = Inr u"
    using machines_total by blast
  show ?thesis
  proof (cases "link_lookup (p @ str i) s")
    case Nil
    then show ?thesis by (simp add: vnet_interface_status_row_def u)
  next
    case (Cons d ds)
    obtain b s1 where c: "check_if_sniffer_exists (p @ str i) s = (b, s1)" by fastforce
    then have l1: "links s1 = links s" using sniffer_links[of "p @ str i" s] by simp
    from Cons have "link_lookup (p @ str i) s \<noteq> []" by simp
    then obtain l where "find (\<lambda>l. l_ifname l = p @ str i) (links s) = Some l"
      using find_name_Some by blast
    then show ?thesis using Cons c l1 by (simp add: vnet_interface_status_row_def u)
  qed
qed

lemma bridge_row_missing:
  "get_machines_by_vnet_interface_name cfg n = Inr u \<Longrightarrow> \<not> check_if_interface_exists n s \<Longrightarrow>
   vnet_interface_status_row cfg n s = Inr ([n, ''NA'', ''NA'', ''NA'', ''NA'', join_comma u], s)"
  by (simp add: vnet_interface_status_row_def check_if_interface_exists_def)

lemma veth_row_missing:
  "\<not> check_if_interface_exists n s \<Longrightarrow>
   vnet_veth_interface_status_row (n, d) s = Inr ([n, ''NA'', ''NA'', ''NA'', bridge d], s)"
  by (simp add: vnet_veth_interface_status_row_def check_if_interface_exists_def)

lemma veth_row_links:
  "vnet_veth_interface_status_row nd s = Inr (r, s') \<Longrightarrow> s' = s"
  by (auto simp: vnet_veth_interface_status_row_def ifname_of_index_def split: prod.splits list.splits option.splits sum.splits)

lemma collect_rows:
  assumes "\<And>x s r s'. x \<in> set xs \<Longrightarrow> body x s = Inr (r, s') \<Longrightarrow> links s' = links s"
    and "collect body xs s = Inr (rs, s')"
  shows "length rs = length xs \<and> links s' = links s \<and>
         (\<forall>i<length xs. \<exists>si si'. links si = links s \<and> body (xs ! i) si = Inr (rs ! i, si'))"
  using assms
proof (induction xs arbitrary: s rs)
  case Nil
  then show ?case by simp
next
  case (Cons x xs)
  from Cons.prems(2) obtain r s1 rs1 where
    b: "body x s = Inr (r, s1)" and c: "collect body xs s1 = Inr (rs1, s')" and rs: "rs = r # rs1"
    by (auto split: sum.splits prod.splits)
  have l1: "links s1 = links s" using Cons.prems(1)[of x s r s1] b by simp
  have ih: "length rs1 = length xs \<and> links s' = links s1 \<and>
         (\<forall>i<length xs. \<exists>si si'. links si = links s1 \<and> body (xs ! i) si = Inr (rs1 ! i, si'))"
  proof (rule Cons.IH[OF _ c])
    fix y t r' t'
    assume "y \<in> set xs" "body y t = Inr (r', t')"
    then show "links t' = links t" using Cons.prems(1)[of y t r' t'] by simp
  qed
  show ?case
  proof (intro conjI allI impI)
    show "length rs = length (x # xs)" using ih rs by simp
    show "links s' = links s" using ih l1 by simp
    fix i assume "i < length (x # xs)"
    then show "\<exists>si si'. links si = links s \<and> body ((x # xs) ! i) si = Inr (rs ! i, si')"
      using b ih l1 rs by (cases i) auto
  qed
qed

lemma collect_total:
  assumes "\<And>x s. x \<in> set xs \<Longrightarrow> \<exists>r s'. body x s = Inr (r, s')"
  shows "\<exists>rs s'. collect body xs s = Inr (rs, s')"
  using assms
proof (induction xs arbitrary: s)
  case Nil
  then show ?case by simp
next
  case (Cons x xs)
  obtain r s1 where b: "body x s = Inr (r, s1)" using Cons.prems[of x s] by auto
  obtain rs s2 where "collect body xs s1 = Inr (rs, s2)" using Cons.IH[of s1] Cons.prems by auto
  then show ?case using b by simp
qed

section \<open>Bridge names and consumer lists\<close>

text \<open>
  C8: the i-th switch bridge is named prefix followed by i, and its consumer list is the
  machines with an interface on bridge i. The code compares the declared bridge number
  with the last character of the name only: with eleven switches, the bridge of index
  10 is named prefix followed by 10, and a machine whose only interface is on bridge 0
  is listed as its consumer.
\<close>

theorem consumer_list_reads_last_digit_only:
  "get_vnet_interface_names_from_config e
      \<lparr>switches = 11, machines = [(''host1'', [(''eth0'', 0)])], veths = None\<rparr> ! 10
     = VNET_BRIDGE_NAME e @ ''10''
   \<and> get_machines_by_vnet_interface_name
        \<lparr>switches = 11, machines = [(''host1'', [(''eth0'', 0)])], veths = None\<rparr>
        (VNET_BRIDGE_NAME e @ ''10'')
     = Inr [''host1'']"
  by (simp add: get_vnet_interface_names_from_config_def str.simps digit_char_def
      get_machines_by_vnet_interface_name_def last_char_int_def int_of_char_def)

section \<open>Kernel requests\<close>

lemma exists_iff: "check_if_interface_exists n s \<longleftrightarrow> n \<in> set (map l_ifname (links s))"
  by (auto simp: check_if_interface_exists_def link_lookup_def filter_empty_conv)

lemma set_attr_fields [simp]:
  "l_ifname (set_attr a l) = l_ifname l" "l_index (set_attr a l) = l_index l"
  "l_kind (set_attr a l) = l_kind l" "l_link (set_attr a l) = l_link l"
  "l_br_stp_state (set_attr a l) = l_br_stp_state l"
  by (cases a; simp add: set_attr_def)+

lemma link_set_index_frame:
  assumes "link_set_index i a s = Inr s'"
  shows "map l_ifname (links s') = map l_ifname (links s)"
    and "map l_index (links s') = map l_index (links s)"
    and "map l_kind (links s') = map l_kind (links s)"
    and "map l_link (links s') = map l_link (links s)"
    and "next_index s' = next_index s" and "iptables_rules s' = iptables_rules s"
    and "iptables_usable s' = iptables_usable s" and "processes s' = processes s"
    and "mac_draws s' = mac_draws s" and "log s' = log s"
    and "calls s' = calls s @ [LinkSetIndex i a]"
  using assms
  by (auto simp: link_set_index_def Let_def split: option.splits if_splits)

lemma link_set_name_frame:
  assumes "link_set_name n a s = Inr s'"
  shows "map l_ifname (links s') = map l_ifname (links s)"
    and "map l_index (links s') = map l_index (links s)"
    and "map l_kind (links s') = map l_kind (links s)"
    and "map l_link (links s') = map l_link (links s)"
    and "next_index s' = next_index s" and "iptables_rules s' = iptables_rules s"
    and "iptables_usable s' = iptables_usable s" and "processes s' = processes s"
    and "mac_draws s' = mac_draws s" and "log s' = log s"
    and "calls s' = calls s @ [LinkSetName n a]"
  using assms
  by (auto simp: link_set_name_def Let_def split: option.splits if_splits)

lemma link_get_Some: "i \<in> set (map l_index (links s)) \<Longrightarrow> \<exists>l. link_get i s = Some l"
  by (cases "link_get i s") (auto simp: link_get_def find_None_iff)

lemma link_lookup_index: "link_lookup n s = dev # ds \<Longrightarrow> dev \<in> set (map l_index (links s))"
proof -
  assume "link_lookup n s = dev # ds"
  then have "dev \<in> set (link_lookup n s)" by simp
  then show ?thesis by (auto simp: link_lookup_def)
qed

lemma link_lookup_names: "map l_ifname (links s') = map l_ifname (links s) \<Longrightarrow>
   map l_index (links s') = map l_index (links s) \<Longrightarrow> link_lookup n s' = link_lookup n s"
proof -
  assume a: "map l_ifname (links s') = map l_ifname (links s)"
     and b: "map l_index (links s') = map l_index (links s)"
  have "\<And>ys. map l_ifname xs = map l_ifname ys \<Longrightarrow> map l_index xs = map l_index ys \<Longrightarrow>
        map l_index (filter (\<lambda>l. l_ifname l = n) xs) = map l_index (filter (\<lambda>l. l_ifname l = n) ys)" for xs :: "link list"
  proof (induction xs)
    case Nil then show ?case by simp
  next
    case (Cons x xs)
    then obtain y ys' where "ys = y # ys'" by (cases ys) auto
    with Cons show ?case by auto
  qed
  then show ?thesis using a b by (simp add: link_lookup_def)
qed

lemma link_set_index_state_ok:
  "i \<in> set (map l_index (links s)) \<Longrightarrow> \<exists>s'. link_set_index i (State st) s = Inr s'"
  "i \<in> set (map l_index (links s)) \<Longrightarrow> \<exists>s'. link_set_index i (Address m) s = Inr s'"
  using link_get_Some[of i s]
  by (auto simp: link_set_index_def Let_def attr_ok_def)



lemma same_interfaces_refl [simp]: "same_interfaces s s"
  by (simp add: same_interfaces_def)

lemma same_interfaces_trans: "same_interfaces s t \<Longrightarrow> same_interfaces t u \<Longrightarrow> same_interfaces s u"
  by (simp add: same_interfaces_def)

lemma same_outside_refl [simp]: "same_outside s s"
  by (simp add: same_outside_def)


lemma skeleton_maps:
  assumes "map skeleton xs = map skeleton ys"
  shows "map l_ifname xs = map l_ifname ys" "map l_index xs = map l_index ys"
    "map l_kind xs = map l_kind ys" "map l_link xs = map l_link ys"
proof -
  have "map (fst \<circ> skeleton) xs = map (fst \<circ> skeleton) ys"
    "map (fst \<circ> snd \<circ> skeleton) xs = map (fst \<circ> snd \<circ> skeleton) ys"
    "map (fst \<circ> snd \<circ> snd \<circ> skeleton) xs = map (fst \<circ> snd \<circ> snd \<circ> skeleton) ys"
    "map (snd \<circ> snd \<circ> snd \<circ> skeleton) xs = map (snd \<circ> snd \<circ> snd \<circ> skeleton) ys"
    using assms by (metis map_map)+
  then show "map l_ifname xs = map l_ifname ys" "map l_index xs = map l_index ys"
    "map l_kind xs = map l_kind ys" "map l_link xs = map l_link ys"
    by (simp_all add: comp_def skeleton_def)
qed

lemma same_interfaces_maps:
  assumes "same_interfaces s s'"
  shows "map l_ifname (links s') = map l_ifname (links s)"
    "map l_index (links s') = map l_index (links s)"
    "map l_kind (links s') = map l_kind (links s)"
    "map l_link (links s') = map l_link (links s)"
  using assms skeleton_maps[of "links s'" "links s"] by (simp_all add: same_interfaces_def)

lemma same_interfaces_lookup: "same_interfaces s s' \<Longrightarrow> link_lookup n s' = link_lookup n s"
  using same_interfaces_maps(1,2) link_lookup_names by blast

lemma same_interfaces_exists:
  "same_interfaces s s' \<Longrightarrow> check_if_interface_exists n s' = check_if_interface_exists n s"
  by (simp add: check_if_interface_exists_def same_interfaces_lookup)

lemma same_interfaces_wf: "same_interfaces s s' \<Longrightarrow> wf_host s' = wf_host s"
proof -
  assume a: "same_interfaces s s'"
  have b: "list_all (\<lambda>l. l_index l < n) xs \<longleftrightarrow> (\<forall>i\<in>set (map l_index xs). i < n)"
    for n and xs :: "link list"
    by (simp add: list_all_iff)
  have "next_index s' = next_index s" using a by (simp add: same_interfaces_def)
  then show ?thesis
    unfolding wf_host_def b using same_interfaces_maps(1,2)[OF a] by simp
qed

lemma skeleton_set_attr [simp]: "skeleton (set_attr a l) = skeleton l"
  by (simp add: skeleton_def)

lemma link_set_index_same:
  assumes "link_set_index i a s = Inr s'"
  shows "same_interfaces s s'" "same_outside s s'" "mac_draws s' = mac_draws s" "log s' = log s"
    "calls s' = calls s @ [LinkSetIndex i a]"
  using assms
  by (auto simp: link_set_index_def Let_def same_interfaces_def same_outside_def
      split: option.splits if_splits)

lemma link_set_name_same:
  assumes "link_set_name n a s = Inr s'"
  shows "same_interfaces s s'" "same_outside s s'" "mac_draws s' = mac_draws s" "log s' = log s"
    "calls s' = calls s @ [LinkSetName n a]"
  using assms
  by (auto simp: link_set_name_def Let_def same_interfaces_def same_outside_def
      split: option.splits if_splits)

lemma configure_vnet_interface_exists:
  assumes "link_lookup ifname s = dev # ds"
  shows "\<exists>s'. configure_vnet_interface e ifname s = Inr s' \<and> same_interfaces s s' \<and> same_outside s s'
          \<and> calls s' = calls s @ [LinkSetIndex dev (State Down),
                                   LinkSetIndex dev (Address (random_mac_generator e (mac_draws s))),
                                   LinkSetIndex dev (State Up)]
          \<and> mac_draws s' = Suc (mac_draws s) \<and> log s' = log s"
proof -
  have d0: "dev \<in> set (map l_index (links s))" using assms by (rule link_lookup_index)
  then obtain s1 where s1: "link_set_index dev (State Down) s = Inr s1"
    using link_set_index_state_ok(1) by blast
  note f1 = link_set_index_same[OF s1]
  let ?s1 = "s1\<lparr>mac_draws := mac_draws s1 + 1\<rparr>"
  have d1: "dev \<in> set (map l_index (links ?s1))"
    using d0 same_interfaces_maps(2)[OF f1(1)] by simp
  then obtain s2 where s2: "link_set_index dev (Address (random_mac_generator e (mac_draws s1))) ?s1 = Inr s2"
    using link_set_index_state_ok(2) by blast
  note f2 = link_set_index_same[OF s2]
  have si2: "same_interfaces s s2"
    using f1(1) f2(1) by (simp add: same_interfaces_def)
  have d2: "dev \<in> set (map l_index (links s2))"
    using d0 same_interfaces_maps(2)[OF si2] by simp
  then obtain s3 where s3: "link_set_index dev (State Up) s2 = Inr s3"
    using link_set_index_state_ok(1) by blast
  note f3 = link_set_index_same[OF s3]
  have "configure_vnet_interface e ifname s = Inr s3"
    using assms s1 s2 s3 by (simp add: configure_vnet_interface_def)
  moreover have "same_interfaces s s3" using si2 f3(1) by (rule same_interfaces_trans)
  moreover have "same_outside s s3" using f1(2) f2(2) f3(2) by (simp add: same_outside_def)
  moreover have "calls s3 = calls s @ [LinkSetIndex dev (State Down),
                                   LinkSetIndex dev (Address (random_mac_generator e (mac_draws s))),
                                   LinkSetIndex dev (State Up)]"
    using f1(5) f2(5) f3(5) f1(3) by simp
  moreover have "mac_draws s3 = Suc (mac_draws s)" using f1(3) f2(3) f3(3) by simp
  moreover have "log s3 = log s" using f1(4) f2(4) f3(4) by simp
  ultimately show ?thesis by blast
qed

lemma configure_vnet_interface_missing:
  "\<not> check_if_interface_exists ifname s \<Longrightarrow> configure_vnet_interface e ifname s = Inl (IndexError, s)"
  by (simp add: configure_vnet_interface_def check_if_interface_exists_def)


lemma link_add_bridge_ok:
  assumes "\<not> check_if_interface_exists n s"
  shows "link_add_bridge e n s =
     Inr ((called (LinkAdd n Bridge None) s)
            \<lparr>links := links s @ [new_link e n (next_index s) Bridge None],
             next_index := next_index s + 1\<rparr>)"
  using assms by (simp add: link_add_bridge_def check_if_interface_exists_def Let_def)

lemma link_lookup_append:
  "links s' = links s @ ls \<Longrightarrow>
   link_lookup n s' = link_lookup n s @ map l_index (filter (\<lambda>l. l_ifname l = n) ls)"
  by (simp add: link_lookup_def)

lemma create_vnet_interface_ok:
  assumes "\<not> check_if_interface_exists ifname s"
  shows "\<exists>s'. create_vnet_interface e ifname s = Inr s'
     \<and> map skeleton (links s') = map skeleton (links s) @ [(ifname, next_index s, Bridge, None)]
     \<and> next_index s' = Suc (next_index s) \<and> same_outside s s'
     \<and> calls s' = calls s @ [LinkAdd ifname Bridge None,
                              LinkSetIndex (next_index s) (State Down),
                              LinkSetIndex (next_index s) (Address (random_mac_generator e (mac_draws s))),
                              LinkSetIndex (next_index s) (State Up)]
     \<and> mac_draws s' = Suc (mac_draws s)
     \<and> log s' = log s @ [(INFO, ''Creating VNet bridge interface '' @ ifname)]"
proof -
  let ?s0 = "logged INFO (''Creating VNet bridge interface '' @ ifname) s"
  let ?s1 = "(called (LinkAdd ifname Bridge None) ?s0)
            \<lparr>links := links ?s0 @ [new_link e ifname (next_index ?s0) Bridge None],
             next_index := next_index ?s0 + 1\<rparr>"
  have ne: "\<not> check_if_interface_exists ifname ?s0"
    using assms exists_cong[of ?s0 s ifname] by simp
  have a: "link_add_bridge e ifname ?s0 = Inr ?s1" using ne by (rule link_add_bridge_ok)
  have "link_lookup ifname s = []" using assms by (simp add: check_if_interface_exists_def)
  then have lk: "link_lookup ifname ?s1 = next_index s # []"
    by (simp add: link_lookup_def new_link_def)
  obtain s2 where s2: "configure_vnet_interface e ifname ?s1 = Inr s2"
    and f: "same_interfaces ?s1 s2" "same_outside ?s1 s2"
      "calls s2 = calls ?s1 @ [LinkSetIndex (next_index s) (State Down),
                                   LinkSetIndex (next_index s) (Address (random_mac_generator e (mac_draws ?s1))),
                                   LinkSetIndex (next_index s) (State Up)]"
      "mac_draws s2 = Suc (mac_draws ?s1)" "log s2 = log ?s1"
    using configure_vnet_interface_exists[OF lk, of e] by blast
  have "create_vnet_interface e ifname s = Inr s2"
    using a s2 by (simp add: create_vnet_interface_def)
  moreover have "map skeleton (links s2) = map skeleton (links s) @ [(ifname, next_index s, Bridge, None)]"
    using f(1) by (simp add: same_interfaces_def skeleton_def new_link_def)
  moreover have "next_index s2 = Suc (next_index s)" using f(1) by (simp add: same_interfaces_def)
  moreover have "same_outside s s2" using f(2) by (simp add: same_outside_def)
  moreover have "calls s2 = calls s @ [LinkAdd ifname Bridge None,
                              LinkSetIndex (next_index s) (State Down),
                              LinkSetIndex (next_index s) (Address (random_mac_generator e (mac_draws s))),
                              LinkSetIndex (next_index s) (State Up)]"
    using f(3) by simp
  moreover have "mac_draws s2 = Suc (mac_draws s)" using f(4) by simp
  moreover have "log s2 = log s @ [(INFO, ''Creating VNet bridge interface '' @ ifname)]"
    using f(5) by simp
  ultimately show ?thesis by blast
qed

lemma skeleton_names: "map l_ifname xs = map fst (map skeleton xs)"
  by (simp add: skeleton_def comp_def)

lemma create_vnet_interface_names:
  assumes "\<not> check_if_interface_exists ifname s" "create_vnet_interface e ifname s = Inr s'"
  shows "map l_ifname (links s') = map l_ifname (links s) @ [ifname]"
    "processes s' = processes s" "iptables_usable s' = iptables_usable s"
    "iptables_rules s' = iptables_rules s"
    "filter is_popen (calls s') = filter is_popen (calls s)"
    "executables s' = executables s"
    "filter is_check_call (calls s') = filter is_check_call (calls s)"
    "errors s' = errors s"
proof -
  from create_vnet_interface_ok[OF assms(1), of e] assms(2)
  have sk: "map skeleton (links s') = map skeleton (links s) @ [(ifname, next_index s, Bridge, None)]"
    and so: "same_outside s s'"
    and c: "calls s' = calls s @ [LinkAdd ifname Bridge None,
                              LinkSetIndex (next_index s) (State Down),
                              LinkSetIndex (next_index s) (Address (random_mac_generator e (mac_draws s))),
                              LinkSetIndex (next_index s) (State Up)]"
    and l: "log s' = log s @ [(INFO, ''Creating VNet bridge interface '' @ ifname)]"
    by auto
  show "executables s' = executables s" using so by (simp add: same_outside_def)
  show "filter is_check_call (calls s') = filter is_check_call (calls s)"
    unfolding c by (simp add: is_check_call_def)
  show "errors s' = errors s" unfolding errors_def l by simp
  show "map l_ifname (links s') = map l_ifname (links s) @ [ifname]"
    unfolding skeleton_names sk by simp
  show "processes s' = processes s" "iptables_usable s' = iptables_usable s"
    "iptables_rules s' = iptables_rules s"
    using so by (simp_all add: same_outside_def)
  show "filter is_popen (calls s') = filter is_popen (calls s)"
    unfolding c by (simp add: is_popen_def)
qed


section \<open>Command lines\<close>

lemma read_tokens_plain:
  "list_all plain w \<Longrightarrow> read_tokens InWord q tok (w @ rest) = read_tokens InWord q (tok @ w) rest"
  by (induction w arbitrary: tok) (auto simp: plain_def)

lemma read_tokens_word:
  assumes "word w"
  shows "read_tokens InSpace False [] (w @ rest) = read_tokens InWord False w rest"
proof -
  obtain c w' where w: "w = c # w'" using assms by (cases w) (auto simp: word_def)
  then have p: "plain c" "list_all plain w'" using assms by (simp_all add: word_def)
  have "read_tokens InSpace False [] (w @ rest) = read_tokens InWord False [c] (w' @ rest)"
    using p(1) w by (simp add: plain_def)
  also have "\<dots> = read_tokens InWord False ([c] @ w') rest"
    using p(2) by (rule read_tokens_plain)
  finally show ?thesis using w by simp
qed


lemma shlex_split_iptables:
  "word ifname \<Longrightarrow> shlex_split (''iptables -C OUTPUT -o '' @ ifname @ '' -j DROP'')
     = Inr (''iptables'' # ''-C'' # drop_rule ifname)"
  "word ifname \<Longrightarrow> shlex_split (''iptables -A OUTPUT -o '' @ ifname @ '' -j DROP'')
     = Inr (''iptables'' # ''-A'' # drop_rule ifname)"
  by (simp_all add: shlex_split_def whitespace_def quote_def escape_def emit_def read_tokens_word
      word_def drop_rule_def)





section \<open>Subprocesses\<close>

lemma check_call_Inr:
  assumes "check_call argv s = Inr (b, s')"
  shows "links s' = links s" "next_index s' = next_index s" "processes s' = processes s"
    "mac_draws s' = mac_draws s" "iptables_usable s' = iptables_usable s"
    "executables s' = executables s" "log s' = log s"
    "calls s' = calls s @ [CheckCall argv]"
  using assms by (auto simp: check_call_def Let_def split: list.splits if_splits)


lemma check_call_missing:
  "prog \<notin> set (executables s) \<Longrightarrow>
   check_call (prog # args) s = Inl (OSError, called (CheckCall (prog # args)) s)"
  by (simp add: check_call_def Let_def)


lemma iptables_rules_missing:
  assumes "word ifname" "''iptables'' \<notin> set (executables s)"
  shows "create_vnet_interface_iptables_rules ifname s =
     Inl (OSError, called (CheckCall (''iptables'' # ''-C'' # drop_rule ifname)) s)"
  using shlex_split_iptables(1)[OF assms(1)] check_call_missing[OF assms(2)]
  by (simp add: create_vnet_interface_iptables_rules_def Let_def)

lemma iptables_rules_Inr:
  assumes "create_vnet_interface_iptables_rules ifname s = Inr s'"
  shows "links s' = links s" "next_index s' = next_index s" "processes s' = processes s"
    "mac_draws s' = mac_draws s" "iptables_usable s' = iptables_usable s"
    "executables s' = executables s"
    "filter is_popen (calls s') = filter is_popen (calls s)"
proof -
  let ?rule = "''OUTPUT -o '' @ ifname @ '' -j DROP''"
  obtain argv where v: "shlex_split (''iptables -C '' @ ?rule) = Inr argv"
    using assms by (cases "shlex_split (''iptables -C '' @ ?rule)")
      (simp_all add: create_vnet_interface_iptables_rules_def Let_def)
  obtain b s1 where c: "check_call argv s = Inr (b, s1)"
    using assms v by (cases "check_call argv s")
      (auto simp: create_vnet_interface_iptables_rules_def Let_def)
  note f1 = check_call_Inr[OF c]
  let ?s2 = "logged INFO (''Creating IPtables DROP rule to the outside world for VNet interface ''
                                      @ ifname) s1"
  have "links s' = links s \<and> next_index s' = next_index s \<and> processes s' = processes s
    \<and> mac_draws s' = mac_draws s \<and> iptables_usable s' = iptables_usable s
    \<and> executables s' = executables s
    \<and> filter is_popen (calls s') = filter is_popen (calls s)"
  proof (cases b)
    case True
    then have "s' = logged DEBUG (''IPtables DROP rule for VNet interface '' @ ifname
                                  @ '' already exists, skipping creation'') s1"
      using assms v c by (simp add: create_vnet_interface_iptables_rules_def Let_def)
    then show ?thesis using f1 by (simp add: is_popen_def)
  next
    case False
    obtain argv' where v': "shlex_split (''iptables -A '' @ ?rule) = Inr argv'"
      using assms v c False by (cases "shlex_split (''iptables -A '' @ ?rule)")
        (simp_all add: create_vnet_interface_iptables_rules_def Let_def)
    obtain b' s3 where c': "check_call argv' ?s2 = Inr (b', s3)"
      using assms v c False v' by (cases "check_call argv' ?s2")
        (auto simp: create_vnet_interface_iptables_rules_def Let_def)
    note f3 = check_call_Inr[OF c']
    have "s' = (if b' then s3 else logged ERROR ''Unable to create IPtables rule, got output: None'' s3)"
      using assms v c False v' c'
      by (auto simp: create_vnet_interface_iptables_rules_def Let_def split: bool.splits)
    then show ?thesis using f1 f3 by (simp add: is_popen_def)
  qed
  then show "links s' = links s" "next_index s' = next_index s" "processes s' = processes s"
    "mac_draws s' = mac_draws s" "iptables_usable s' = iptables_usable s"
    "executables s' = executables s"
    "filter is_popen (calls s') = filter is_popen (calls s)"
    by simp_all
qed


lemma start_tcpdump_Inr:
  assumes "start_tcpdump_on_vnet_interface e ifname s = Inr s'"
  shows "links s' = links s" "next_index s' = next_index s" "iptables_rules s' = iptables_rules s"
    "mac_draws s' = mac_draws s" "iptables_usable s' = iptables_usable s"
    "executables s' = executables s"
    "filter is_check_call (calls s') = filter is_check_call (calls s)"
    "errors s' = errors s"
  using assms
  by (auto simp: start_tcpdump_on_vnet_interface_def Let_def popen_def is_check_call_def errors_def
      split: sum.splits list.splits if_splits)

section \<open>The bridge loop\<close>



lemma sniffer_snd [simp]:
  "processes (snd (check_if_sniffer_exists n s)) = processes s"
  "calls (snd (check_if_sniffer_exists n s)) = calls s"
  "iptables_rules (snd (check_if_sniffer_exists n s)) = iptables_rules s"
  "iptables_usable (snd (check_if_sniffer_exists n s)) = iptables_usable s"
  "executables (snd (check_if_sniffer_exists n s)) = executables s"
  "next_index (snd (check_if_sniffer_exists n s)) = next_index s"
  "mac_draws (snd (check_if_sniffer_exists n s)) = mac_draws s"
  "errors (snd (check_if_sniffer_exists n s)) = errors s"
  by (simp_all add: check_if_sniffer_exists_def errors_def)

text \<open>The step of the bridge loop, through its intermediate hosts.\<close>

lemma bring_up_vnet_interface_cases:
  assumes "bring_up_vnet_interface e sniffer ifname s = Inr s'"
  obtains s1 s2 s3 where
    "if check_if_interface_exists ifname s then s1 = s else create_vnet_interface e ifname s = Inr s1"
    "create_vnet_interface_iptables_rules ifname s1 = Inr s2"
    "link_set_name ifname (State Up) s2 = Inr s3"
    "if sniffer \<and> \<not> fst (check_if_sniffer_exists ifname s3)
     then start_tcpdump_on_vnet_interface e ifname (snd (check_if_sniffer_exists ifname s3)) = Inr s'
     else s' = (if sniffer then snd (check_if_sniffer_exists ifname s3) else s3)"
proof -
  let ?r1 = "if \<not> check_if_interface_exists ifname s then create_vnet_interface e ifname s else Inr s"
  obtain s1 where s1: "?r1 = Inr s1"
    using assms by (cases ?r1) (simp_all add: bring_up_vnet_interface_def)
  obtain s2 where s2: "create_vnet_interface_iptables_rules ifname s1 = Inr s2"
    using assms s1 by (cases "create_vnet_interface_iptables_rules ifname s1")
      (simp_all add: bring_up_vnet_interface_def)
  obtain s3 where s3: "link_set_name ifname (State Up) s2 = Inr s3"
    using assms s1 s2 by (cases "link_set_name ifname (State Up) s2")
      (simp_all add: bring_up_vnet_interface_def)
  obtain b s4 where c: "check_if_sniffer_exists ifname s3 = (b, s4)" by fastforce
  have r: "bring_up_vnet_interface e sniffer ifname s =
      (if sniffer then (if b then Inr s4 else start_tcpdump_on_vnet_interface e ifname s4) else Inr s3)"
    using s1 s2 s3 c by (simp add: bring_up_vnet_interface_def)
  have a: "if check_if_interface_exists ifname s then s1 = s else create_vnet_interface e ifname s = Inr s1"
    using s1 by (cases "check_if_interface_exists ifname s") simp_all
  have d: "if sniffer \<and> \<not> fst (check_if_sniffer_exists ifname s3)
     then start_tcpdump_on_vnet_interface e ifname (snd (check_if_sniffer_exists ifname s3)) = Inr s'
     else s' = (if sniffer then snd (check_if_sniffer_exists ifname s3) else s3)"
    using r assms c by (auto split: if_splits)
  show thesis using that[OF a s2 s3 d] .
qed

lemma bring_up_vnet_interface_Inr:
  assumes "bring_up_vnet_interface e sniffer ifname s = Inr s'"
  shows "map l_ifname (links s') =
           map l_ifname (links s) @ (if check_if_interface_exists ifname s then [] else [ifname])"
    and "iptables_usable s' = iptables_usable s"
    and "executables s' = executables s"
proof -
  obtain s1 s2 s3 where
    s1: "if check_if_interface_exists ifname s then s1 = s else create_vnet_interface e ifname s = Inr s1"
    and s2: "create_vnet_interface_iptables_rules ifname s1 = Inr s2"
    and s3: "link_set_name ifname (State Up) s2 = Inr s3"
    and s4: "if sniffer \<and> \<not> fst (check_if_sniffer_exists ifname s3)
     then start_tcpdump_on_vnet_interface e ifname (snd (check_if_sniffer_exists ifname s3)) = Inr s'
     else s' = (if sniffer then snd (check_if_sniffer_exists ifname s3) else s3)"
    using bring_up_vnet_interface_cases[OF assms] by blast
  have n1: "map l_ifname (links s1) =
           map l_ifname (links s) @ (if check_if_interface_exists ifname s then [] else [ifname])"
    and u1: "iptables_usable s1 = iptables_usable s" and x1: "executables s1 = executables s"
    using s1 create_vnet_interface_names[of ifname s e s1]
    by (cases "check_if_interface_exists ifname s"; simp)+
  note f2 = iptables_rules_Inr[OF s2]
  note f3 = link_set_name_same[OF s3]
  have n3: "map l_ifname (links s3) = map l_ifname (links s1)"
    using same_interfaces_maps(1)[OF f3(1)] f2(1) by simp
  have u3: "iptables_usable s3 = iptables_usable s" "executables s3 = executables s"
    using f3(2) f2(5,6) u1 x1 by (simp_all add: same_outside_def)
  have "map l_ifname (links s') = map l_ifname (links s3) \<and> iptables_usable s' = iptables_usable s3
      \<and> executables s' = executables s3"
  proof (cases "sniffer \<and> \<not> fst (check_if_sniffer_exists ifname s3)")
    case True
    then have "start_tcpdump_on_vnet_interface e ifname (snd (check_if_sniffer_exists ifname s3)) = Inr s'"
      using s4 by simp
    from start_tcpdump_Inr[OF this] show ?thesis by simp
  next
    case False
    then have "s' = (if sniffer then snd (check_if_sniffer_exists ifname s3) else s3)"
      using s4 by simp
    then show ?thesis by simp
  qed
  then show "map l_ifname (links s') =
           map l_ifname (links s) @ (if check_if_interface_exists ifname s then [] else [ifname])"
    and "iptables_usable s' = iptables_usable s"
    and "executables s' = executables s"
    using n1 n3 u3 by simp_all
qed





lemma bring_up_bridges_Inr:
  "for_each (bring_up_vnet_interface e sniffer) names s = Inr t \<Longrightarrow>
   set (map l_ifname (links t)) = set (map l_ifname (links s)) \<union> set names
   \<and> iptables_usable t = iptables_usable s \<and> executables t = executables s"
proof (induction names arbitrary: s)
  case Nil
  then show ?case by simp
next
  case (Cons n names)
  obtain s1 where s1: "bring_up_vnet_interface e sniffer n s = Inr s1"
    using Cons.prems by (cases "bring_up_vnet_interface e sniffer n s") simp_all
  then have r: "for_each (bring_up_vnet_interface e sniffer) names s1 = Inr t"
    using Cons.prems by simp
  note f = bring_up_vnet_interface_Inr[OF s1]
  have a: "set (map l_ifname (links s1)) = set (map l_ifname (links s)) \<union> {n}"
    using f(1) by (auto simp: exists_iff)
  show ?case using Cons.IH[OF r] a f(2,3) by auto
qed


section \<open>The veth loop\<close>

lemma find_append_if:
  "find P (xs @ ys) = (case find P xs of None \<Rightarrow> find P ys | Some x \<Rightarrow> Some x)"
  by (induction xs) auto

lemma find_distinct_filter:
  "distinct (map f xs) \<Longrightarrow> find (\<lambda>x. f x = a) xs = Some l \<Longrightarrow> filter (\<lambda>x. f x = a) xs = [l]"
proof (induction xs)
  case Nil
  then show ?case by simp
next
  case (Cons x xs)
  show ?case
  proof (cases "f x = a")
    case True
    then have "l = x" using Cons.prems(2) by simp
    moreover have "filter (\<lambda>x. f x = a) xs = []"
    proof -
      have "f x \<notin> f ` set xs" using Cons.prems(1) by simp
      then have "\<forall>y\<in>set xs. f y \<noteq> a" using True by blast
      then show ?thesis by (simp add: filter_empty_conv)
    qed
    ultimately show ?thesis using True by simp
  next
    case False
    then show ?thesis using Cons by simp
  qed
qed

lemma find_distinct_member:
  "distinct (map f xs) \<Longrightarrow> l \<in> set xs \<Longrightarrow> find (\<lambda>x. f x = f l) xs = Some l"
  by (induction xs) auto

lemma find_Some_member: "find P xs = Some l \<Longrightarrow> l \<in> set xs \<and> P l"
  by (induction xs) (auto split: if_splits)

lemma wf_lookup:
  assumes "wf_host s" "find (\<lambda>l. l_ifname l = n) (links s) = Some l"
  shows "link_lookup n s = [l_index l]" "link_get (l_index l) s = Some l"
proof -
  show "link_lookup n s = [l_index l]"
    using assms find_distinct_filter[of l_ifname "links s" n l]
    by (simp add: wf_host_def link_lookup_def)
  have "l \<in> set (links s)" using assms(2) find_Some_member by fastforce
  then show "link_get (l_index l) s = Some l"
    using assms(1) find_distinct_member[of l_index "links s" l]
    by (simp add: wf_host_def link_get_def)
qed

lemma kind_of_exists: "kind_of n s = Some k \<Longrightarrow> check_if_interface_exists n s"
  by (auto simp: kind_of_def exists_iff dest: find_Some_member)

lemma kind_of_None: "kind_of n s = None \<longleftrightarrow> \<not> check_if_interface_exists n s"
  by (auto simp: kind_of_def exists_iff find_None_iff)

lemma find_skeleton:
  "map skeleton xs = map skeleton ys \<Longrightarrow>
   map_option skeleton (find (\<lambda>l. l_ifname l = n) xs) = map_option skeleton (find (\<lambda>l. l_ifname l = n) ys)"
proof (induction xs arbitrary: ys)
  case Nil
  then show ?case by simp
next
  case (Cons x xs)
  then obtain y ys' where ys: "ys = y # ys'" by (cases ys) auto
  then have sk: "skeleton x = skeleton y" and rest: "map skeleton xs = map skeleton ys'"
    using Cons.prems by auto
  have nm: "l_ifname x = l_ifname y" using sk by (simp add: skeleton_def)
  show ?case
  proof (cases "l_ifname x = n")
    case True
    then show ?thesis using ys nm sk by simp
  next
    case False
    then show ?thesis using ys nm Cons.IH[OF rest] by simp
  qed
qed

lemma same_interfaces_kind_of: "same_interfaces s s' \<Longrightarrow> kind_of n s' = kind_of n s"
proof -
  assume "same_interfaces s s'"
  then have "map skeleton (links s') = map skeleton (links s)" by (simp add: same_interfaces_def)
  from find_skeleton[OF this, of n]
  have "map_option (fst \<circ> snd \<circ> snd) (map_option skeleton (find (\<lambda>l. l_ifname l = n) (links s')))
      = map_option (fst \<circ> snd \<circ> snd) (map_option skeleton (find (\<lambda>l. l_ifname l = n) (links s)))"
    by simp
  then show ?thesis
    by (simp add: kind_of_def option.map_comp comp_def skeleton_def)
qed

lemma ndb_set_stp_same:
  assumes "ndb_set_stp n v s = Inr s'"
  shows "same_interfaces s s'" "same_outside s s'" "mac_draws s' = mac_draws s" "log s' = log s"
    "calls s' = calls s @ [NdbSetStp n v]"
  using assms
  by (auto simp: ndb_set_stp_def Let_def same_interfaces_def same_outside_def skeleton_def
      split: option.splits if_splits)

lemma ndb_set_stp_ok: "kind_of n s = Some Bridge \<Longrightarrow> \<exists>s'. ndb_set_stp n v s = Inr s'"
  by (auto simp: ndb_set_stp_def kind_of_def Let_def)


lemma configure_veth_interface_missing:
  "\<not> check_if_interface_exists name s \<or> \<not> check_if_interface_exists (bridge data) s \<Longrightarrow>
   configure_veth_interface name data s
     = Inl (IndexError, logged INFO (''Creating VNet veth interface '' @ name) s)"
  by (auto simp: configure_veth_interface_def Let_def check_if_interface_exists_def link_lookup_def
      split: list.splits)

lemma configure_veth_interface_in_range:
  assumes "check_if_interface_exists name s" "check_if_interface_exists (bridge data) s"
  shows "raised (configure_veth_interface name data s) \<noteq> Some IndexError"
proof -
  let ?s0 = "logged INFO (''Creating VNet veth interface '' @ name) s"
  obtain dev ds where d: "link_lookup name ?s0 = dev # ds"
    using assms(1) by (cases "link_lookup name ?s0") (auto simp: check_if_interface_exists_def link_lookup_def)
  obtain br bs where b: "link_lookup (bridge data) ?s0 = br # bs"
    using assms(2) by (cases "link_lookup (bridge data) ?s0") (auto simp: check_if_interface_exists_def link_lookup_def)
  have "configure_veth_interface name data s = link_set_index dev (Master br) ?s0"
    using d b by (simp add: configure_veth_interface_def Let_def)
  then show ?thesis
    by (auto simp: raised_def link_set_index_def Let_def split: option.splits)
qed

lemma configure_veth_interface_ok:
  assumes "wf_host s" "kind_of name s = Some Veth" "kind_of (bridge data) s = Some Bridge"
  shows "\<exists>s' dev br. configure_veth_interface name data s = Inr s'
     \<and> link_lookup name s = [dev] \<and> link_lookup (bridge data) s = [br]
     \<and> calls s' = calls s @ [LinkSetIndex dev (Master br)]
     \<and> same_interfaces s s' \<and> same_outside s s' \<and> mac_draws s' = mac_draws s
     \<and> log s' = log s @ [(INFO, ''Creating VNet veth interface '' @ name)]"
proof -
  let ?s0 = "logged INFO (''Creating VNet veth interface '' @ name) s"
  obtain l where l: "find (\<lambda>l. l_ifname l = name) (links s) = Some l" "l_kind l = Veth"
    using assms(2) by (auto simp: kind_of_def)
  obtain bl where bl: "find (\<lambda>l. l_ifname l = bridge data) (links s) = Some bl" "l_kind bl = Bridge"
    using assms(3) by (auto simp: kind_of_def)
  note wl = wf_lookup[OF assms(1) l(1)]
  note wb = wf_lookup[OF assms(1) bl(1)]
  have lk: "link_lookup name ?s0 = [l_index l]" "link_lookup (bridge data) ?s0 = [l_index bl]"
    using wl(1) wb(1) by (simp_all add: link_lookup_def)
  have g: "link_get (l_index l) ?s0 = Some l" "link_get (l_index bl) ?s0 = Some bl"
    using wl(2) wb(2) by (simp_all add: link_get_def)
  have ok: "attr_ok (Master (l_index bl)) l ?s0"
    using g(2) l(2) bl(2) by (simp add: attr_ok_def)
  obtain s' where s': "link_set_index (l_index l) (Master (l_index bl)) ?s0 = Inr s'"
    using g(1) ok by (simp add: link_set_index_def Let_def)
  note f = link_set_index_same[OF s']
  have "configure_veth_interface name data s = Inr s'"
    using lk s' by (simp add: configure_veth_interface_def Let_def)
  moreover have "same_interfaces s s'" using f(1) by (simp add: same_interfaces_def)
  moreover have "same_outside s s'" using f(2) by (simp add: same_outside_def)
  ultimately show ?thesis using wl(1) wb(1) f(3,4,5) by auto
qed


lemma link_add_veth_ok:
  assumes "\<not> check_if_interface_exists n s" "\<not> check_if_interface_exists p s" "n \<noteq> p"
  shows "link_add_veth e n p s =
     Inr ((called (LinkAdd n Veth (Some p)) s)
            \<lparr>links := links s @ [new_link e p (next_index s) Veth (Some (next_index s + 1)),
                                 new_link e n (next_index s + 1) Veth (Some (next_index s))],
             next_index := next_index s + 2\<rparr>)"
  using assms by (simp add: link_add_veth_def check_if_interface_exists_def Let_def)

lemma link_add_veth_Inr:
  assumes "link_add_veth e n p s = Inr s'"
  shows "\<not> check_if_interface_exists n s" "\<not> check_if_interface_exists p s" "n \<noteq> p"
    "links s' = links s @ [new_link e p (next_index s) Veth (Some (next_index s + 1)),
                           new_link e n (next_index s + 1) Veth (Some (next_index s))]"
    "next_index s' = next_index s + 2" "same_outside s s'" "mac_draws s' = mac_draws s"
    "log s' = log s" "calls s' = calls s @ [LinkAdd n Veth (Some p)]"
  using assms
  by (auto simp: link_add_veth_def check_if_interface_exists_def Let_def same_outside_def
      split: if_splits)

lemma link_add_veth_wf:
  assumes "link_add_veth e n p s = Inr s'" "wf_host s"
  shows "wf_host s'"
proof -
  note f = link_add_veth_Inr[OF assms(1)]
  have nn: "n \<notin> set (map l_ifname (links s))" "p \<notin> set (map l_ifname (links s))"
    using f(1,2) by (simp_all add: exists_iff)
  have lt: "\<forall>i\<in>set (map l_index (links s)). i < next_index s"
    using assms(2) by (simp add: wf_host_def list_all_iff)
  then have ni: "next_index s \<notin> set (map l_index (links s))"
    "Suc (next_index s) \<notin> set (map l_index (links s))"
    by fastforce+
  have "distinct (map l_ifname (links s'))"
    using assms(2) nn f(3) unfolding f(4) by (simp add: wf_host_def new_link_def)
  moreover have "distinct (map l_index (links s'))"
    using assms(2) ni unfolding f(4) by (simp add: wf_host_def new_link_def)
  moreover have "list_all (\<lambda>l. l_index l < next_index s') (links s')"
    using lt unfolding f(4) f(5) by (auto simp: list_all_iff new_link_def)
  ultimately show ?thesis by (simp add: wf_host_def)
qed

lemma link_add_veth_kind_of:
  assumes "link_add_veth e n p s = Inr s'"
  shows "kind_of n s' = Some Veth" "kind_of p s' = Some Veth"
    "check_if_interface_exists m s \<Longrightarrow> kind_of m s' = kind_of m s"
proof -
  note f = link_add_veth_Inr[OF assms(1)]
  have nn: "find (\<lambda>l. l_ifname l = n) (links s) = None" "find (\<lambda>l. l_ifname l = p) (links s) = None"
    using f(1,2) by (auto simp: exists_iff find_None_iff)
  show "kind_of n s' = Some Veth" "kind_of p s' = Some Veth"
    using nn f(3) unfolding kind_of_def f(4) find_append_if by (simp_all add: new_link_def)
  assume "check_if_interface_exists m s"
  then obtain l where "find (\<lambda>l. l_ifname l = m) (links s) = Some l"
    using find_name_Some[of m s] by (auto simp: check_if_interface_exists_def)
  then show "kind_of m s' = kind_of m s"
    unfolding kind_of_def f(4) find_append_if by simp
qed

text \<open>The step of the veth loop on a host where it can complete.\<close>

lemma ensure_vnet_veth_interface_ok:
  assumes wf: "wf_host s" and br: "kind_of (bridge data) s = Some Bridge"
    and nm: "kind_of name s = Some Veth
             \<or> (\<exists>p. peer data = Some p \<and> \<not> check_if_interface_exists name s
                    \<and> \<not> check_if_interface_exists p s \<and> p \<noteq> name)"
  shows "\<exists>s' dev br. ensure_vnet_veth_interface e (name, data) s = Inr s'
     \<and> link_lookup name s' = [dev] \<and> link_lookup (bridge data) s' = [br]
     \<and> calls s' = calls s
          @ (case stp data of None \<Rightarrow> [] | Some b \<Rightarrow> [NdbSetStp (bridge data) (if b then 1 else 0)])
          @ (if \<not> check_if_interface_exists name s \<and> peer data \<noteq> None
             then [LinkAdd name Veth (peer data)] else [])
          @ [LinkSetIndex dev (Master br), LinkSetIndex dev (State Down),
             LinkSetIndex dev (Address (random_mac_generator e (mac_draws s))),
             LinkSetIndex dev (State Up)]
     \<and> mac_draws s' = Suc (mac_draws s) \<and> wf_host s' \<and> same_outside s s'
     \<and> kind_of name s' = Some Veth \<and> kind_of (bridge data) s' = Some Bridge
     \<and> (\<forall>m. check_if_interface_exists m s \<longrightarrow> kind_of m s' = kind_of m s)"
proof -
  let ?stp = "case stp data of None \<Rightarrow> [] | Some b \<Rightarrow> [NdbSetStp (bridge data) (if b then 1 else 0)]"
  let ?add = "if \<not> check_if_interface_exists name s \<and> peer data \<noteq> None
             then [LinkAdd name Veth (peer data)] else []"
  \<comment> \<open>STP on the bridge\<close>
  obtain s1 where s1: "(case stp data of
                 None \<Rightarrow> Inr s
               | Some b \<Rightarrow>
                   ndb_set_stp (bridge data) (if b then 1 else 0)
                     (logged INFO ((if b then ''Enabling'' else ''Disabling'')
                                   @ '' STP on VNet interface '' @ bridge data) s)) = Inr s1"
    and f1: "same_interfaces s s1" "same_outside s s1" "mac_draws s1 = mac_draws s"
      "calls s1 = calls s @ ?stp"
  proof (cases "stp data")
    case None
    then show ?thesis using that[of s] by simp
  next
    case (Some b)
    let ?s0 = "logged INFO ((if b then ''Enabling'' else ''Disabling'')
                                   @ '' STP on VNet interface '' @ bridge data) s"
    have "kind_of (bridge data) ?s0 = Some Bridge" using br by (simp add: kind_of_def)
    then obtain t where t: "ndb_set_stp (bridge data) (if b then 1 else 0) ?s0 = Inr t"
      using ndb_set_stp_ok by blast
    note g = ndb_set_stp_same[OF t]
    have "same_interfaces s t" using g(1) by (simp add: same_interfaces_def)
    moreover have "same_outside s t" using g(2) by (simp add: same_outside_def)
    ultimately show ?thesis using that[of t] t g(3,5) Some by simp
  qed
  have wf1: "wf_host s1" using wf same_interfaces_wf[OF f1(1)] by simp
  have ex1: "check_if_interface_exists m s1 = check_if_interface_exists m s" for m
    using same_interfaces_exists[OF f1(1)] by simp
  have k1: "kind_of m s1 = kind_of m s" for m
    using same_interfaces_kind_of[OF f1(1)] by simp
  \<comment> \<open>the pair\<close>
  obtain s2 where s2: "(if \<not> check_if_interface_exists name s1 then create_veth_interface e name data s1
                    else Inr s1) = Inr s2"
    and f2: "wf_host s2" "same_outside s1 s2" "mac_draws s2 = mac_draws s1"
      "calls s2 = calls s1 @ ?add" "kind_of name s2 = Some Veth"
      "\<forall>m. check_if_interface_exists m s \<longrightarrow> kind_of m s2 = kind_of m s"
  proof (cases "check_if_interface_exists name s")
    case True
    then have "kind_of name s = Some Veth" using nm by auto
    then show ?thesis using that[of s1] True wf1 ex1 k1 by simp
  next
    case False
    then obtain p where p: "peer data = Some p" "\<not> check_if_interface_exists p s" "p \<noteq> name"
      using nm kind_of_exists by blast
    then obtain t where t: "link_add_veth e name p s1 = Inr t"
      using link_add_veth_ok[of name s1 p e] False ex1 by auto
    note g = link_add_veth_Inr[OF t]
    have "\<forall>m. check_if_interface_exists m s \<longrightarrow> kind_of m t = kind_of m s"
      using link_add_veth_kind_of(3)[OF t] ex1 k1 by simp
    then show ?thesis
      using that[of t] t False ex1 p(1) link_add_veth_wf[OF t wf1] g(6,7,9)
        link_add_veth_kind_of(1)[OF t]
      by (simp add: create_veth_interface_def)
  qed
  have kb2: "kind_of (bridge data) s2 = Some Bridge"
    using f2(6) br kind_of_exists[OF br] by simp
  \<comment> \<open>attach\<close>
  obtain s3 dev b where s3: "configure_veth_interface name data s2 = Inr s3"
    and f3: "link_lookup name s2 = [dev]" "link_lookup (bridge data) s2 = [b]"
      "calls s3 = calls s2 @ [LinkSetIndex dev (Master b)]"
      "same_interfaces s2 s3" "same_outside s2 s3" "mac_draws s3 = mac_draws s2"
    using configure_veth_interface_ok[OF f2(1) f2(5) kb2] by blast
  \<comment> \<open>initialise\<close>
  have lk3: "link_lookup name s3 = dev # []"
    using f3(1) same_interfaces_lookup[OF f3(4)] by simp
  obtain s4 where s4: "configure_vnet_interface e name s3 = Inr s4"
    and f4: "same_interfaces s3 s4" "same_outside s3 s4"
      "calls s4 = calls s3 @ [LinkSetIndex dev (State Down),
                              LinkSetIndex dev (Address (random_mac_generator e (mac_draws s3))),
                              LinkSetIndex dev (State Up)]"
      "mac_draws s4 = Suc (mac_draws s3)"
    using configure_vnet_interface_exists[OF lk3, of e] by blast
  have si24: "same_interfaces s2 s4" using f3(4) f4(1) by (rule same_interfaces_trans)
  have r: "ensure_vnet_veth_interface e (name, data) s = Inr s4"
    using s1 s2 s3 s4 by (simp add: ensure_vnet_veth_interface_def)
  have md: "mac_draws s3 = mac_draws s" using f3(6) f2(3) f1(3) by simp
  have c: "calls s4 = calls s @ ?stp @ ?add
          @ [LinkSetIndex dev (Master b), LinkSetIndex dev (State Down),
             LinkSetIndex dev (Address (random_mac_generator e (mac_draws s))),
             LinkSetIndex dev (State Up)]"
    using f4(3) f3(3) f2(4) f1(4) md by simp
  have l4: "link_lookup name s4 = [dev]" "link_lookup (bridge data) s4 = [b]"
    using f3(1,2) same_interfaces_lookup[OF si24] by simp_all
  have w4: "wf_host s4" using f2(1) same_interfaces_wf[OF si24] by simp
  have o4: "same_outside s s4"
    using f1(2) f2(2) f3(5) f4(2) by (simp add: same_outside_def)
  have k4: "kind_of m s4 = kind_of m s2" for m
    using same_interfaces_kind_of[OF si24] by simp
  show ?thesis
    using r l4 c w4 o4 f4(4) md k4 f2(5,6) kb2 by auto
qed


lemma ensure_peerless_missing:
  assumes "peer data = None" "\<not> check_if_interface_exists name s"
  shows "raised (ensure_vnet_veth_interface e (name, data) s) \<noteq> None"
    and "stp data = None \<or> kind_of (bridge data) s = Some Bridge \<Longrightarrow>
         raised (ensure_vnet_veth_interface e (name, data) s) = Some IndexError"
proof -
  have cfg: "\<not> check_if_interface_exists name t \<Longrightarrow>
       raised (configure_veth_interface name data t) = Some IndexError" for t
    using configure_veth_interface_missing[of name t data] by (simp add: raised_def)
  have none: "stp data = None \<Longrightarrow> raised (ensure_vnet_veth_interface e (name, data) s) = Some IndexError"
    using assms cfg[of s]
    by (auto simp: ensure_vnet_veth_interface_def create_veth_interface_def raised_def split: sum.splits)
  have some: "raised (ensure_vnet_veth_interface e (name, data) s) \<noteq> None
      \<and> (kind_of (bridge data) s = Some Bridge \<longrightarrow>
           raised (ensure_vnet_veth_interface e (name, data) s) = Some IndexError)"
    if b: "stp data = Some b" for b
  proof -
    let ?s0 = "logged INFO ((if b then ''Enabling'' else ''Disabling'')
                                   @ '' STP on VNet interface '' @ bridge data) s"
    show ?thesis
    proof (cases "ndb_set_stp (bridge data) (if b then 1 else 0) ?s0")
      case (Inl err)
      have nb: "kind_of (bridge data) s \<noteq> Some Bridge"
      proof
        assume "kind_of (bridge data) s = Some Bridge"
        then have "kind_of (bridge data) ?s0 = Some Bridge" by (simp add: kind_of_def)
        then show False using ndb_set_stp_ok[of "bridge data" ?s0 "if b then 1 else 0"] Inl by simp
      qed
      have "ensure_vnet_veth_interface e (name, data) s = Inl err"
        using b Inl by (simp add: ensure_vnet_veth_interface_def)
      then show ?thesis using nb by (cases err) (simp add: raised_def)
    next
      case (Inr t)
      note g = ndb_set_stp_same[OF Inr]
      have "same_interfaces s t" using g(1) by (simp add: same_interfaces_def)
      then have nt: "\<not> check_if_interface_exists name t"
        using assms(2) same_interfaces_exists by simp
      have "ensure_vnet_veth_interface e (name, data) s =
          (case configure_veth_interface name data t of Inl err \<Rightarrow> Inl err
           | Inr s3 \<Rightarrow> configure_vnet_interface e name s3)"
        using b Inr nt assms(1) by (simp add: ensure_vnet_veth_interface_def create_veth_interface_def)
      then have "raised (ensure_vnet_veth_interface e (name, data) s) = Some IndexError"
        using cfg[OF nt] by (auto simp: raised_def split: sum.splits)
      then show ?thesis by simp
    qed
  qed
  show "raised (ensure_vnet_veth_interface e (name, data) s) \<noteq> None"
    using none some by (cases "stp data") auto
  show "raised (ensure_vnet_veth_interface e (name, data) s) = Some IndexError"
    if "stp data = None \<or> kind_of (bridge data) s = Some Bridge"
    using that none some by (cases "stp data") auto
qed

lemma raised_for_each_head:
  "raised (body x s) \<noteq> None \<Longrightarrow> for_each body (x # xs) s = body x s"
  by (cases "body x s") (auto simp: raised_def)

lemma bring_up_veths_after_bridges:
  assumes "veths cfg = Some vs"
    and "for_each (bring_up_vnet_interface e sniffer) (get_vnet_interface_names_from_config e cfg) s = Inr t"
  shows "bring_up_vnet_interfaces e cfg sniffer s
     = for_each (ensure_vnet_veth_interface e) vs
         (logged INFO ''VNet veth config found, ensuring interfaces'' t)"
  using assms by (simp add: bring_up_vnet_interfaces_def ensure_vnet_veth_interfaces_def Let_def)

lemma bring_up_bridges_raise:
  assumes "for_each (bring_up_vnet_interface e sniffer) (get_vnet_interface_names_from_config e cfg) s = Inl err"
  shows "bring_up_vnet_interfaces e cfg sniffer s = Inl err"
  using assms by (simp add: bring_up_vnet_interfaces_def)

lemma raised_Inl: "raised (Inl err) \<noteq> None"
  by (cases err) (simp add: raised_def)

section \<open>Indexing the result of a link lookup\<close>

text \<open>
  C10: configure_vnet_interface and configure_veth_interface take element 0 of the link
  lookup without a guard. When the interface exists (and, for the attach, the bridge
  exists) the index is in range: the initialisation returns, the attach does not raise
  IndexError and returns when the two links are a veth and a bridge. When the interface
  or the bridge does not exist the call raises IndexError. In particular the loop body
  for a veth declared without a peer whose interface does not exist raises, and so does
  the whole bring-up when such a veth is declared first.
\<close>

theorem lookup_index_unguarded:
  "(check_if_interface_exists ifname s \<longrightarrow> (\<exists>s'. configure_vnet_interface e ifname s = Inr s'))
   \<and> (\<not> check_if_interface_exists ifname s \<longrightarrow>
         configure_vnet_interface e ifname s = Inl (IndexError, s))
   \<and> (check_if_interface_exists name s \<and> check_if_interface_exists (bridge data) s \<longrightarrow>
         raised (configure_veth_interface name data s) \<noteq> Some IndexError)
   \<and> (wf_host s \<and> kind_of name s = Some Veth \<and> kind_of (bridge data) s = Some Bridge \<longrightarrow>
         (\<exists>s'. configure_veth_interface name data s = Inr s'))
   \<and> (\<not> check_if_interface_exists name s \<or> \<not> check_if_interface_exists (bridge data) s \<longrightarrow>
         raised (configure_veth_interface name data s) = Some IndexError)
   \<and> (peer data = None \<and> \<not> check_if_interface_exists name s \<longrightarrow>
         raised (ensure_vnet_veth_interface e (name, data) s) \<noteq> None
         \<and> (stp data = None \<or> kind_of (bridge data) s = Some Bridge \<longrightarrow>
              raised (ensure_vnet_veth_interface e (name, data) s) = Some IndexError))
   \<and> (veths cfg = Some ((name, data) # rest) \<and> peer data = None
       \<and> \<not> check_if_interface_exists name s
       \<and> name \<notin> set (get_vnet_interface_names_from_config e cfg) \<longrightarrow>
         raised (bring_up_vnet_interfaces e cfg sniffer s) \<noteq> None)"
proof (intro conjI impI)
  assume "check_if_interface_exists ifname s"
  then obtain dev ds where "link_lookup ifname s = dev # ds"
    by (cases "link_lookup ifname s") (auto simp: check_if_interface_exists_def)
  then show "\<exists>s'. configure_vnet_interface e ifname s = Inr s'"
    using configure_vnet_interface_exists[of ifname s dev ds e] by blast
next
  assume "\<not> check_if_interface_exists ifname s"
  then show "configure_vnet_interface e ifname s = Inl (IndexError, s)"
    by (rule configure_vnet_interface_missing)
next
  assume "check_if_interface_exists name s \<and> check_if_interface_exists (bridge data) s"
  then show "raised (configure_veth_interface name data s) \<noteq> Some IndexError"
    using configure_veth_interface_in_range by blast
next
  assume "wf_host s \<and> kind_of name s = Some Veth \<and> kind_of (bridge data) s = Some Bridge"
  then show "\<exists>s'. configure_veth_interface name data s = Inr s'"
    using configure_veth_interface_ok[of s name data] by blast
next
  assume "\<not> check_if_interface_exists name s \<or> \<not> check_if_interface_exists (bridge data) s"
  then show "raised (configure_veth_interface name data s) = Some IndexError"
    using configure_veth_interface_missing[of name s data] by (simp add: raised_def)
next
  assume "peer data = None \<and> \<not> check_if_interface_exists name s"
  then show "raised (ensure_vnet_veth_interface e (name, data) s) \<noteq> None"
    using ensure_peerless_missing(1) by blast
next
  assume "peer data = None \<and> \<not> check_if_interface_exists name s"
    and "stp data = None \<or> kind_of (bridge data) s = Some Bridge"
  then show "raised (ensure_vnet_veth_interface e (name, data) s) = Some IndexError"
    using ensure_peerless_missing(2) by blast
next
  assume a: "veths cfg = Some ((name, data) # rest) \<and> peer data = None
       \<and> \<not> check_if_interface_exists name s
       \<and> name \<notin> set (get_vnet_interface_names_from_config e cfg)"
  let ?names = "get_vnet_interface_names_from_config e cfg"
  show "raised (bring_up_vnet_interfaces e cfg sniffer s) \<noteq> None"
  proof (cases "for_each (bring_up_vnet_interface e sniffer) ?names s")
    case (Inl err)
    then show ?thesis using bring_up_bridges_raise[of e sniffer cfg s err] raised_Inl by simp
  next
    case (Inr t)
    let ?t0 = "logged INFO ''VNet veth config found, ensuring interfaces'' t"
    have "set (map l_ifname (links t)) = set (map l_ifname (links s)) \<union> set ?names"
      using bring_up_bridges_Inr[OF Inr] by simp
    then have "\<not> check_if_interface_exists name ?t0"
      using a by (simp add: exists_iff)
    then have r: "raised (ensure_vnet_veth_interface e (name, data) ?t0) \<noteq> None"
      using a ensure_peerless_missing(1) by blast
    have "bring_up_vnet_interfaces e cfg sniffer s
        = for_each (ensure_vnet_veth_interface e) ((name, data) # rest) ?t0"
      using a bring_up_veths_after_bridges[OF _ Inr] by simp
    then show ?thesis
      using r raised_for_each_head[of "ensure_vnet_veth_interface e" "(name, data)" ?t0 rest] by simp
  qed
qed

theorem lookup_index_unguarded_witness:
  "check_if_interface_exists ''vnet-br0'' veth_host
   \<and> (\<exists>s'. configure_vnet_interface example_env ''vnet-br0'' veth_host = Inr s')
   \<and> \<not> check_if_interface_exists ''vnet-br0'' empty_host
   \<and> configure_vnet_interface example_env ''vnet-br0'' empty_host = Inl (IndexError, empty_host)
   \<and> wf_host veth_host \<and> kind_of ''vnet-veth1'' veth_host = Some Veth
   \<and> kind_of ''vnet-br1'' veth_host = Some Bridge
   \<and> (\<exists>s'. configure_veth_interface ''vnet-veth1''
              \<lparr>bridge = ''vnet-br1'', peer = Some ''vnet-veth0'', stp = Some True\<rparr> veth_host = Inr s')
   \<and> \<not> check_if_interface_exists ''uplink0'' bridges_host
   \<and> raised (configure_veth_interface ''uplink0''
              \<lparr>bridge = ''vnet-br0'', peer = None, stp = None\<rparr> bridges_host) = Some IndexError
   \<and> raised (ensure_vnet_veth_interface example_env
              (''uplink0'', \<lparr>bridge = ''vnet-br0'', peer = None, stp = None\<rparr>) bridges_host)
        = Some IndexError
   \<and> raised (bring_up_vnet_interfaces example_env peerless_config False empty_host) \<noteq> None"
proof -
  let ?d1 = "\<lparr>bridge = ''vnet-br1'', peer = Some ''vnet-veth0'', stp = Some True\<rparr>"
  let ?d0 = "\<lparr>bridge = ''vnet-br0'', peer = None, stp = None\<rparr>"
  have x1: "check_if_interface_exists ''vnet-br0'' veth_host"
    "check_if_interface_exists ''vnet-veth1'' veth_host"
    "check_if_interface_exists ''vnet-br1'' veth_host"
    by (simp_all add: exists_iff veth_host_def bridges_host_def)
  have x2: "\<not> check_if_interface_exists ''vnet-br0'' empty_host"
    "\<not> check_if_interface_exists ''uplink0'' empty_host"
    by (simp_all add: exists_iff empty_host_def)
  have x3: "\<not> check_if_interface_exists ''uplink0'' bridges_host"
    by (simp add: exists_iff bridges_host_def)
  have w: "wf_host veth_host" by (simp add: wf_host_def veth_host_def bridges_host_def)
  have k: "kind_of ''vnet-veth1'' veth_host = Some Veth" "kind_of ''vnet-br1'' veth_host = Some Bridge"
    "kind_of ''vnet-br0'' bridges_host = Some Bridge"
    by (simp_all add: kind_of_def veth_host_def bridges_host_def)
  have n: "''uplink0'' \<notin> set (get_vnet_interface_names_from_config example_env peerless_config)"
    by (simp add: get_vnet_interface_names_from_config_def peerless_config_def example_env_def)
  have v: "veths peerless_config = Some [(''uplink0'', ?d0)]" by (simp add: peerless_config_def)
  note a = lookup_index_unguarded[of "''vnet-br0''" veth_host example_env "''vnet-veth1''" ?d1
      peerless_config "[]" False]
  note b = lookup_index_unguarded[of "''vnet-br0''" empty_host example_env "''uplink0''" ?d0
      peerless_config "[]" False]
  note c = lookup_index_unguarded[of "''vnet-br0''" bridges_host example_env "''uplink0''" ?d0
      peerless_config "[]" False]
  have p1: "\<exists>s'. configure_vnet_interface example_env ''vnet-br0'' veth_host = Inr s'"
    using a x1 by blast
  have p2: "\<exists>s'. configure_veth_interface ''vnet-veth1'' ?d1 veth_host = Inr s'"
    using a w k by simp
  have p3: "configure_vnet_interface example_env ''vnet-br0'' empty_host = Inl (IndexError, empty_host)"
    using b x2 by blast
  have p4: "raised (bring_up_vnet_interfaces example_env peerless_config False empty_host) \<noteq> None"
    using b x2 n v by simp
  have p5: "raised (configure_veth_interface ''uplink0'' ?d0 bridges_host) = Some IndexError"
    using c x3 by blast
  have p6: "raised (ensure_vnet_veth_interface example_env (''uplink0'', ?d0) bridges_host) = Some IndexError"
    using c x3 by simp
  show ?thesis using x1(1) p1 x2(1) p3 w k(1,2) p2 x3 p5 p6 p4 by (intro conjI)
qed




section \<open>Capture processes\<close>



section \<open>The isolation rule\<close>



lemma veth_row_state:
  "links t = links s \<Longrightarrow>
   vnet_veth_interface_status_row nd t =
     (case vnet_veth_interface_status_row nd s of
        Inl (x, _) \<Rightarrow> Inl (x, t) | Inr (r, _) \<Rightarrow> Inr (r, t))"
  by (auto simp: vnet_veth_interface_status_row_def ifname_of_index_def link_lookup_def link_get_def
      split: prod.splits list.splits option.splits)

lemma veth_row_raised:
  "links t = links s \<Longrightarrow>
   raised (vnet_veth_interface_status_row nd t) = raised (vnet_veth_interface_status_row nd s)"
  using veth_row_state[of t s nd]
  by (auto simp: raised_def split: sum.splits prod.splits)

lemma collect_veth_rows:
  assumes "\<forall>nd\<in>set vs. raised (vnet_veth_interface_status_row nd s) = None"
  shows "\<exists>rs. collect vnet_veth_interface_status_row vs s = Inr (rs, s) \<and> length rs = length vs
     \<and> (\<forall>j<length vs. vnet_veth_interface_status_row (vs ! j) s = Inr (rs ! j, s))"
  using assms
proof (induction vs)
  case Nil
  then show ?case by simp
next
  case (Cons nd vs)
  have "raised (vnet_veth_interface_status_row nd s) = None" using Cons.prems by simp
  then obtain r s1 where "vnet_veth_interface_status_row nd s = Inr (r, s1)"
    by (cases "vnet_veth_interface_status_row nd s") (auto simp: raised_def)
  then have r: "vnet_veth_interface_status_row nd s = Inr (r, s)"
    using veth_row_links by blast
  obtain rs where rs: "collect vnet_veth_interface_status_row vs s = Inr (rs, s)"
    "length rs = length vs"
    "\<forall>j<length vs. vnet_veth_interface_status_row (vs ! j) s = Inr (rs ! j, s)"
    using Cons.IH Cons.prems by auto
  have c: "collect vnet_veth_interface_status_row (nd # vs) s = Inr (r # rs, s)"
    using r rs(1) by simp
  have "\<forall>j<length (nd # vs). vnet_veth_interface_status_row ((nd # vs) ! j) s = Inr ((r # rs) ! j, s)"
  proof (intro allI impI)
    fix j assume "j < length (nd # vs)"
    then show "vnet_veth_interface_status_row ((nd # vs) ! j) s = Inr ((r # rs) ! j, s)"
      using r rs(3) by (cases j) auto
  qed
  then show ?case using c rs(2) by auto
qed

lemma collect_veth_rows_raise:
  assumes "nd \<in> set vs" "raised (vnet_veth_interface_status_row nd s) \<noteq> None"
  shows "raised (collect vnet_veth_interface_status_row vs s) \<noteq> None"
  using assms
proof (induction vs)
  case Nil
  then show ?case by simp
next
  case (Cons x vs)
  show ?case
  proof (cases "vnet_veth_interface_status_row x s")
    case (Inl err)
    then show ?thesis by (cases err) (simp add: raised_def)
  next
    case (Inr p)
    obtain r s1 where p: "p = (r, s1)" by (cases p)
    then have s1: "s1 = s" using Inr veth_row_links by blast
    have "x \<noteq> nd" using Inr Cons.prems(2) by (auto simp: raised_def)
    then have "nd \<in> set vs" using Cons.prems(1) by simp
    then have "raised (collect vnet_veth_interface_status_row vs s) \<noteq> None"
      using Cons.IH Cons.prems(2) by simp
    then show ?thesis using Inr p s1
      by (auto simp: raised_def split: sum.splits prod.splits)
  qed
qed

section \<open>The status report\<close>

text \<open>
  C6: an interface that does not exist at query time gets a row whose unavailable fields
  are NA. The bridge report never raises and holds the NA row of a missing bridge at its
  position. The row of a missing veth is computed without raising, and the veth report
  holds it at its position when every declared veth that exists has a row. The veth
  report raises, and then holds no row at all, as soon as the row of one declared veth
  raises; this is so for a veth that exists and has no master (IndexError).
\<close>

theorem status_report_missing_interface:
  "(i < nat (switches cfg) \<and> \<not> check_if_interface_exists (VNET_BRIDGE_NAME e @ str i) s \<longrightarrow>
      (\<exists>table s' used_by.
          show_vnet_interface_status e cfg s = Inr (table, s') \<and>
          get_machines_by_vnet_interface_name cfg (VNET_BRIDGE_NAME e @ str i) = Inr used_by \<and>
          table ! Suc i = [VNET_BRIDGE_NAME e @ str i, ''NA'', ''NA'', ''NA'', ''NA'', join_comma used_by]))
   \<and> (\<not> check_if_interface_exists name s \<longrightarrow>
        vnet_veth_interface_status_row (name, data) s = Inr ([name, ''NA'', ''NA'', ''NA'', bridge data], s))
   \<and> (veths cfg = Some vs
        \<and> (\<forall>nd\<in>set vs. check_if_interface_exists (fst nd) s \<longrightarrow>
              raised (vnet_veth_interface_status_row nd s) = None) \<longrightarrow>
        (\<exists>vtable s''. show_vnet_veth_interface_status cfg s = Inr (vtable, s'')
           \<and> length vtable = Suc (length vs)
           \<and> (\<forall>j<length vs. \<not> check_if_interface_exists (fst (vs ! j)) s \<longrightarrow>
                 vtable ! Suc j = [fst (vs ! j), ''NA'', ''NA'', ''NA'', bridge (snd (vs ! j))])))
   \<and> (veths cfg = Some vs \<and> nd \<in> set vs
        \<and> raised (vnet_veth_interface_status_row nd s) \<noteq> None \<longrightarrow>
        raised (show_vnet_veth_interface_status cfg s) \<noteq> None)
   \<and> (link_lookup name s = dev # ds \<and> link_get dev s = Some info \<and> l_master info = None
        \<and> (\<forall>p. l_link info = Some p \<longrightarrow> link_get p s \<noteq> None) \<longrightarrow>
        raised (vnet_veth_interface_status_row (name, data) s) = Some IndexError)"
proof (intro conjI impI)
  let ?names = "get_vnet_interface_names_from_config e cfg"
  let ?n = "VNET_BRIDGE_NAME e @ str i"
  let ?s0 = "logged INFO ''Listing VNet interface statuses'' s"
  assume a: "i < nat (switches cfg) \<and> \<not> check_if_interface_exists ?n s"
  have tot: "\<And>x t. x \<in> set ?names \<Longrightarrow> \<exists>r t'. vnet_interface_status_row cfg x t = Inr (r, t')"
    using bridge_row_total by (fastforce simp: get_vnet_interface_names_from_config_def)
  obtain rs s1 where c: "collect (vnet_interface_status_row cfg) ?names ?s0 = Inr (rs, s1)"
    using collect_total[of ?names "vnet_interface_status_row cfg" ?s0] tot by blast
  have pres: "links t' = links t"
    if "x \<in> set ?names" "vnet_interface_status_row cfg x t = Inr (r, t')" for x t r t'
  proof -
    from that(1) obtain k where "x = VNET_BRIDGE_NAME e @ str k"
      by (auto simp: get_vnet_interface_names_from_config_def)
    then show ?thesis using bridge_row_total[of cfg "VNET_BRIDGE_NAME e" k t] that(2) by auto
  qed
  have len: "length ?names = nat (switches cfg)" and nth: "?names ! i = ?n"
    using a by (simp_all add: get_vnet_interface_names_from_config_def)
  have ilt: "i < length ?names" using a len by simp
  have "\<forall>k<length ?names. \<exists>si si'. links si = links ?s0 \<and>
          vnet_interface_status_row cfg (?names ! k) si = Inr (rs ! k, si')"
    using collect_rows[of ?names "vnet_interface_status_row cfg" ?s0 rs s1, OF pres c]
    by (rule conjunct2[THEN conjunct2])
  then have "\<exists>si si'. links si = links ?s0 \<and>
          vnet_interface_status_row cfg (?names ! i) si = Inr (rs ! i, si')"
    using ilt by blast
  then obtain si si' where si: "links si = links ?s0"
    "vnet_interface_status_row cfg ?n si = Inr (rs ! i, si')"
    unfolding nth by (elim exE conjE)
  obtain u where u: "get_machines_by_vnet_interface_name cfg ?n = Inr u"
    using machines_total by blast
  have "\<not> check_if_interface_exists ?n si"
    using a si(1) exists_cong[of si s ?n] by simp
  then have "rs ! i = [?n, ''NA'', ''NA'', ''NA'', ''NA'', join_comma u]"
    using bridge_row_missing[OF u, of si] si(2) by simp
  then show "\<exists>table s' used_by.
          show_vnet_interface_status e cfg s = Inr (table, s') \<and>
          get_machines_by_vnet_interface_name cfg ?n = Inr used_by \<and>
          table ! Suc i = [?n, ''NA'', ''NA'', ''NA'', ''NA'', join_comma used_by]"
    using c u by (simp add: show_vnet_interface_status_def)
next
  assume "\<not> check_if_interface_exists name s"
  then show "vnet_veth_interface_status_row (name, data) s = Inr ([name, ''NA'', ''NA'', ''NA'', bridge data], s)"
    by (rule veth_row_missing)
next
  let ?s0 = "logged INFO ''Listing VNet veth interface statuses'' s"
  assume a: "veths cfg = Some vs
        \<and> (\<forall>nd\<in>set vs. check_if_interface_exists (fst nd) s \<longrightarrow>
              raised (vnet_veth_interface_status_row nd s) = None)"
  have l: "links ?s0 = links s" by simp
  have ok: "\<forall>nd\<in>set vs. raised (vnet_veth_interface_status_row nd ?s0) = None"
  proof
    fix nd assume m: "nd \<in> set vs"
    have "raised (vnet_veth_interface_status_row nd s) = None"
    proof (cases "check_if_interface_exists (fst nd) s")
      case True
      then show ?thesis using a m by blast
    next
      case False
      then show ?thesis using veth_row_missing[of "fst nd" s "snd nd"] by (simp add: raised_def)
    qed
    then show "raised (vnet_veth_interface_status_row nd ?s0) = None"
      using veth_row_raised[OF l, of nd] by simp
  qed
  obtain rs where c: "collect vnet_veth_interface_status_row vs ?s0 = Inr (rs, ?s0)"
    and len: "length rs = length vs"
    and rows: "\<forall>j<length vs. vnet_veth_interface_status_row (vs ! j) ?s0 = Inr (rs ! j, ?s0)"
    using collect_veth_rows[OF ok] by blast
  let ?vt = "[''Name'', ''Status'', ''L2_addr'', ''Peer'', ''Master''] # rs"
  have r: "show_vnet_veth_interface_status cfg s = Inr (?vt, ?s0)"
    using a c by (simp add: show_vnet_veth_interface_status_def Let_def)
  have na: "\<forall>j<length vs. \<not> check_if_interface_exists (fst (vs ! j)) s \<longrightarrow>
                 ?vt ! Suc j = [fst (vs ! j), ''NA'', ''NA'', ''NA'', bridge (snd (vs ! j))]"
  proof (intro allI impI)
    fix j assume j: "j < length vs" and n: "\<not> check_if_interface_exists (fst (vs ! j)) s"
    have "\<not> check_if_interface_exists (fst (vs ! j)) ?s0"
      using n exists_cong[OF l, of "fst (vs ! j)"] by simp
    then have "vnet_veth_interface_status_row (vs ! j) ?s0
        = Inr ([fst (vs ! j), ''NA'', ''NA'', ''NA'', bridge (snd (vs ! j))], ?s0)"
      using veth_row_missing[of "fst (vs ! j)" ?s0 "snd (vs ! j)"] by simp
    then show "?vt ! Suc j = [fst (vs ! j), ''NA'', ''NA'', ''NA'', bridge (snd (vs ! j))]"
      using rows j by simp
  qed
  show "\<exists>vtable s''. show_vnet_veth_interface_status cfg s = Inr (vtable, s'')
           \<and> length vtable = Suc (length vs)
           \<and> (\<forall>j<length vs. \<not> check_if_interface_exists (fst (vs ! j)) s \<longrightarrow>
                 vtable ! Suc j = [fst (vs ! j), ''NA'', ''NA'', ''NA'', bridge (snd (vs ! j))])"
    using r len na by (intro exI[of _ ?vt] exI[of _ ?s0] conjI) simp_all
next
  let ?s0 = "logged INFO ''Listing VNet veth interface statuses'' s"
  assume a: "veths cfg = Some vs \<and> nd \<in> set vs
        \<and> raised (vnet_veth_interface_status_row nd s) \<noteq> None"
  have l: "links ?s0 = links s" by simp
  have "raised (vnet_veth_interface_status_row nd ?s0) \<noteq> None"
    using a veth_row_raised[OF l, of nd] by simp
  then have "raised (collect vnet_veth_interface_status_row vs ?s0) \<noteq> None"
    using a collect_veth_rows_raise[of nd vs ?s0] by blast
  then show "raised (show_vnet_veth_interface_status cfg s) \<noteq> None"
    using a by (auto simp: show_vnet_veth_interface_status_def Let_def raised_def
        split: sum.splits prod.splits)
next
  assume "link_lookup name s = dev # ds \<and> link_get dev s = Some info \<and> l_master info = None
        \<and> (\<forall>p. l_link info = Some p \<longrightarrow> link_get p s \<noteq> None)"
  then show "raised (vnet_veth_interface_status_row (name, data) s) = Some IndexError"
    by (auto simp: vnet_veth_interface_status_row_def ifname_of_index_def raised_def
        split: option.splits)
qed

theorem status_report_missing_interface_witness:
  "(\<exists>table s' used_by.
      show_vnet_interface_status example_env example_config empty_host = Inr (table, s') \<and>
      get_machines_by_vnet_interface_name example_config ''vnet-br1'' = Inr used_by \<and>
      table ! Suc (Suc 0) = [''vnet-br1'', ''NA'', ''NA'', ''NA'', ''NA'', join_comma used_by])
   \<and> vnet_veth_interface_status_row (''vnet-veth0'', \<lparr>bridge = ''vnet-br0'', peer = None, stp = None\<rparr>) empty_host
       = Inr ([''vnet-veth0'', ''NA'', ''NA'', ''NA'', ''vnet-br0''], empty_host)
   \<and> (\<exists>vtable s''. show_vnet_veth_interface_status example_config empty_host = Inr (vtable, s'') \<and>
         vtable ! Suc (Suc 0) = [''vnet-veth0'', ''NA'', ''NA'', ''NA'', ''vnet-br0''])
   \<and> raised (vnet_veth_interface_status_row
        (''vnet-veth1'', \<lparr>bridge = ''vnet-br1'', peer = Some ''vnet-veth0'', stp = Some True\<rparr>) veth_host)
       = Some IndexError
   \<and> raised (show_vnet_veth_interface_status example_config veth_host) \<noteq> None"
proof -
  let ?d = "\<lparr>bridge = ''vnet-br0'', peer = None, stp = None\<rparr>"
  let ?d1 = "\<lparr>bridge = ''vnet-br1'', peer = Some ''vnet-veth0'', stp = Some True\<rparr>"
  let ?vs = "[(''vnet-veth1'', ?d1), (''vnet-veth0'', ?d)]"
  let ?i = "\<lparr>l_ifname = ''vnet-veth1'', l_index = 4, l_kind = Veth, l_state = Down,
          l_address = ''02:42:ac:00:00:04'', l_master = None, l_link = Some 3,
          l_br_stp_state = 0\<rparr>"
  have nm: "VNET_BRIDGE_NAME example_env @ str (Suc 0) = ''vnet-br1''"
    by (subst str.simps) (simp add: digit_char_def example_env_def)
  have ne: "\<not> check_if_interface_exists n empty_host" for n
    by (simp add: check_if_interface_exists_def link_lookup_def empty_host_def)
  have v: "veths example_config = Some ?vs"
    by (simp add: example_config_def)
  note inst = status_report_missing_interface[of "Suc 0" example_config example_env empty_host
        "''vnet-veth0''" ?d ?vs]
  note inst2 = status_report_missing_interface[of "Suc 0" example_config example_env veth_host
        "''vnet-veth1''" ?d1 ?vs "(''vnet-veth1'', ?d1)" 4 "[]" ?i]
  have pre1: "Suc 0 < nat (switches example_config) \<and>
      \<not> check_if_interface_exists (VNET_BRIDGE_NAME example_env @ str (Suc 0)) empty_host"
    using ne by (simp add: example_config_def)
  have p1: "\<exists>table s' used_by.
      show_vnet_interface_status example_env example_config empty_host = Inr (table, s') \<and>
      get_machines_by_vnet_interface_name example_config ''vnet-br1'' = Inr used_by \<and>
      table ! Suc (Suc 0) = [''vnet-br1'', ''NA'', ''NA'', ''NA'', ''NA'', join_comma used_by]"
    using inst[THEN conjunct1, THEN mp, OF pre1] unfolding nm .
  have p2: "vnet_veth_interface_status_row (''vnet-veth0'', ?d) empty_host
       = Inr ([''vnet-veth0'', ''NA'', ''NA'', ''NA'', ''vnet-br0''], empty_host)"
    using inst[THEN conjunct2, THEN conjunct1, THEN mp, OF ne] by simp
  have pre3: "veths example_config = Some ?vs
      \<and> (\<forall>nd\<in>set ?vs. check_if_interface_exists (fst nd) empty_host \<longrightarrow>
              raised (vnet_veth_interface_status_row nd empty_host) = None)"
    using v ne by simp
  obtain vtable s'' where r: "show_vnet_veth_interface_status example_config empty_host = Inr (vtable, s'')"
    and na: "\<forall>j<length ?vs. \<not> check_if_interface_exists (fst (?vs ! j)) empty_host \<longrightarrow>
                 vtable ! Suc j = [fst (?vs ! j), ''NA'', ''NA'', ''NA'', bridge (snd (?vs ! j))]"
    using inst[THEN conjunct2, THEN conjunct2, THEN conjunct1, THEN mp, OF pre3] by blast
  have "vtable ! Suc (Suc 0) = [fst (?vs ! Suc 0), ''NA'', ''NA'', ''NA'', bridge (snd (?vs ! Suc 0))]"
    using na ne by simp
  then have p3: "\<exists>vtable s''. show_vnet_veth_interface_status example_config empty_host = Inr (vtable, s'') \<and>
         vtable ! Suc (Suc 0) = [''vnet-veth0'', ''NA'', ''NA'', ''NA'', ''vnet-br0'']"
    using r by simp
  have pre5: "link_lookup ''vnet-veth1'' veth_host = 4 # [] \<and> link_get 4 veth_host = Some ?i
        \<and> l_master ?i = None \<and> (\<forall>p. l_link ?i = Some p \<longrightarrow> link_get p veth_host \<noteq> None)"
    by (simp add: link_lookup_def link_get_def veth_host_def bridges_host_def)
  have p5: "raised (vnet_veth_interface_status_row (''vnet-veth1'', ?d1) veth_host) = Some IndexError"
    using inst2[THEN conjunct2, THEN conjunct2, THEN conjunct2, THEN conjunct2, THEN mp, OF pre5] .
  have pre4: "veths example_config = Some ?vs \<and> (''vnet-veth1'', ?d1) \<in> set ?vs
        \<and> raised (vnet_veth_interface_status_row (''vnet-veth1'', ?d1) veth_host) \<noteq> None"
    using v p5 by simp
  have p4: "raised (show_vnet_veth_interface_status example_config veth_host) \<noteq> None"
    using inst2[THEN conjunct2, THEN conjunct2, THEN conjunct2, THEN conjunct1, THEN mp, OF pre4] .
  from p1 p2 p3 p5 p4 show ?thesis by (intro conjI)
qed

text \<open>
  C6, as worded, fails on the host that bring-up leaves when the bridge of the first
  declared veth is missing: the second veth does not exist, and the veth report raises
  IndexError on the first one, which exists and has no master, so that no row is
  reported for the missing one.
\<close>

theorem veth_report_raises_with_missing_veth:
  "\<not> check_if_interface_exists ''veth-b''
       (host_at (bring_up_vnet_interfaces example_env missing_bridge_config False empty_host))
   \<and> raised (show_vnet_veth_interface_status missing_bridge_config
        (host_at (bring_up_vnet_interfaces example_env missing_bridge_config False empty_host)))
       = Some IndexError"
  by code_simp

lemma for_each_append:
  "for_each body (xs @ ys) s =
     (case for_each body xs s of Inl err \<Rightarrow> Inl err | Inr u \<Rightarrow> for_each body ys u)"
  by (induction xs arbitrary: s) (auto split: sum.splits)

lemma configure_veth_interface_Inr:
  assumes "configure_veth_interface name data s = Inr s'"
  shows "same_interfaces s s'" "mac_draws s' = mac_draws s"
    "calls s' = calls s @ [LinkSetIndex (hd (link_lookup name s)) (Master (hd (link_lookup (bridge data) s)))]"
proof -
  let ?s0 = "logged INFO (''Creating VNet veth interface '' @ name) s"
  obtain dev ds where d: "link_lookup name ?s0 = dev # ds"
    using assms by (cases "link_lookup name ?s0") (simp_all add: configure_veth_interface_def Let_def)
  obtain br bs where b: "link_lookup (bridge data) ?s0 = br # bs"
    using assms d by (cases "link_lookup (bridge data) ?s0")
      (simp_all add: configure_veth_interface_def Let_def)
  have r: "link_set_index dev (Master br) ?s0 = Inr s'"
    using assms d b by (simp add: configure_veth_interface_def Let_def)
  note f = link_set_index_same[OF r]
  have l: "link_lookup name s = dev # ds" "link_lookup (bridge data) s = br # bs"
    using d b by (simp_all add: link_lookup_def)
  show "same_interfaces s s'" using f(1) by (simp add: same_interfaces_def)
  show "mac_draws s' = mac_draws s" using f(3) by simp
  show "calls s' = calls s @ [LinkSetIndex (hd (link_lookup name s)) (Master (hd (link_lookup (bridge data) s)))]"
    using f(5) l by simp
qed

lemma configure_vnet_interface_Inr:
  assumes "configure_vnet_interface e ifname s = Inr s'"
  shows "same_interfaces s s'" "mac_draws s' = Suc (mac_draws s)"
    "calls s' = calls s @ [LinkSetIndex (hd (link_lookup ifname s)) (State Down),
                           LinkSetIndex (hd (link_lookup ifname s))
                             (Address (random_mac_generator e (mac_draws s))),
                           LinkSetIndex (hd (link_lookup ifname s)) (State Up)]"
proof -
  obtain dev ds where d: "link_lookup ifname s = dev # ds"
    using assms by (cases "link_lookup ifname s") (simp_all add: configure_vnet_interface_def)
  from configure_vnet_interface_exists[OF d, of e] assms
  show "same_interfaces s s'" "mac_draws s' = Suc (mac_draws s)"
    "calls s' = calls s @ [LinkSetIndex (hd (link_lookup ifname s)) (State Down),
                           LinkSetIndex (hd (link_lookup ifname s))
                             (Address (random_mac_generator e (mac_draws s))),
                           LinkSetIndex (hd (link_lookup ifname s)) (State Up)]"
    using d by auto
qed

text \<open>The requests of a step of the veth loop that returns.\<close>

lemma ensure_vnet_veth_interface_Inr:
  assumes "ensure_vnet_veth_interface e (name, data) s = Inr s'"
  shows "calls s' = calls s
          @ (case stp data of None \<Rightarrow> [] | Some b \<Rightarrow> [NdbSetStp (bridge data) (if b then 1 else 0)])
          @ (if \<not> check_if_interface_exists name s \<and> peer data \<noteq> None
             then [LinkAdd name Veth (peer data)] else [])
          @ [LinkSetIndex (hd (link_lookup name s')) (Master (hd (link_lookup (bridge data) s'))),
             LinkSetIndex (hd (link_lookup name s')) (State Down),
             LinkSetIndex (hd (link_lookup name s')) (Address (random_mac_generator e (mac_draws s))),
             LinkSetIndex (hd (link_lookup name s')) (State Up)]"
proof -
  let ?stp = "case stp data of None \<Rightarrow> [] | Some b \<Rightarrow> [NdbSetStp (bridge data) (if b then 1 else 0)]"
  let ?add = "if \<not> check_if_interface_exists name s \<and> peer data \<noteq> None
             then [LinkAdd name Veth (peer data)] else []"
  let ?r1 = "case stp data of
                 None \<Rightarrow> Inr s
               | Some b \<Rightarrow>
                   ndb_set_stp (bridge data) (if b then 1 else 0)
                     (logged INFO ((if b then ''Enabling'' else ''Disabling'')
                                   @ '' STP on VNet interface '' @ bridge data) s)"
  obtain s1 where s1: "?r1 = Inr s1"
    using assms by (cases ?r1) (simp_all add: ensure_vnet_veth_interface_def)
  have f1: "same_interfaces s s1 \<and> mac_draws s1 = mac_draws s \<and> calls s1 = calls s @ ?stp"
  proof (cases "stp data")
    case None
    then show ?thesis using s1 by simp
  next
    case (Some b)
    then have "ndb_set_stp (bridge data) (if b then 1 else 0)
                     (logged INFO ((if b then ''Enabling'' else ''Disabling'')
                                   @ '' STP on VNet interface '' @ bridge data) s) = Inr s1"
      using s1 by simp
    from ndb_set_stp_same[OF this] show ?thesis using Some by (simp add: same_interfaces_def)
  qed
  let ?r2 = "if \<not> check_if_interface_exists name s1 then create_veth_interface e name data s1 else Inr s1"
  obtain s2 where s2: "?r2 = Inr s2"
    using assms s1 by (cases ?r2) (simp_all add: ensure_vnet_veth_interface_def)
  have ex1: "check_if_interface_exists name s1 = check_if_interface_exists name s"
    using f1 same_interfaces_exists by blast
  have f2: "mac_draws s2 = mac_draws s1 \<and> calls s2 = calls s1 @ ?add"
  proof (cases "\<not> check_if_interface_exists name s \<and> peer data \<noteq> None")
    case True
    then obtain p where p: "peer data = Some p" by auto
    then have "link_add_veth e name p s1 = Inr s2"
      using s2 True ex1 by (simp add: create_veth_interface_def)
    from link_add_veth_Inr[OF this] show ?thesis using True p by simp
  next
    case False
    then have "s2 = s1" using s2 ex1 by (auto simp: create_veth_interface_def split: if_splits)
    then show ?thesis using False by auto
  qed
  obtain s3 where s3: "configure_veth_interface name data s2 = Inr s3"
    using assms s1 s2 by (cases "configure_veth_interface name data s2")
      (simp_all add: ensure_vnet_veth_interface_def)
  have s4: "configure_vnet_interface e name s3 = Inr s'"
    using assms s1 s2 s3 by (simp add: ensure_vnet_veth_interface_def)
  note f3 = configure_veth_interface_Inr[OF s3]
  note f4 = configure_vnet_interface_Inr[OF s4]
  have si: "same_interfaces s2 s'" using f3(1) f4(1) by (rule same_interfaces_trans)
  have l: "link_lookup name s3 = link_lookup name s'" "link_lookup name s2 = link_lookup name s'"
    "link_lookup (bridge data) s2 = link_lookup (bridge data) s'"
    using same_interfaces_lookup[OF f4(1)] same_interfaces_lookup[OF si] by simp_all
  have m: "mac_draws s3 = mac_draws s" using f3(2) f2 f1 by simp
  show ?thesis
    using f4(3) f3(3) f2 f1 unfolding l m by simp
qed

lemma ensure_vnet_veth_interfaces_calls:
  "for_each (ensure_vnet_veth_interface e) vs s = Inr t \<Longrightarrow> \<exists>c. calls t = calls s @ c"
proof (induction vs arbitrary: s)
  case Nil
  then show ?case by simp
next
  case (Cons nd vs)
  obtain s1 where s1: "ensure_vnet_veth_interface e nd s = Inr s1"
    using Cons.prems by (cases "ensure_vnet_veth_interface e nd s") simp_all
  then have r: "for_each (ensure_vnet_veth_interface e) vs s1 = Inr t" using Cons.prems by simp
  obtain c1 where c1: "calls s1 = calls s @ c1"
    using ensure_vnet_veth_interface_Inr[of e "fst nd" "snd nd" s s1] s1 by auto
  obtain c2 where "calls t = calls s1 @ c2" using Cons.IH[OF r] by blast
  then show ?case using c1 by simp
qed

section \<open>The steps taken for a declared veth\<close>

text \<open>
  C5: for each declared veth, bring-up first applies the requested STP state to the
  veth's bridge (when stp is given), then creates the pair (only when a peer is given
  and the interface is absent), then attaches the veth to its bridge, then sets the veth
  down, gives it a freshly drawn random MAC address and brings it up. For every veth of
  the configuration, a bring-up that returns has gone through the bridges, then the
  veths declared before this one, then this one, then the others, and the requests sent
  for this veth are exactly these, in this order. On a host whose bridge exists and
  where the veth exists or can be created, the step for a veth returns.
\<close>

theorem veth_steps_in_order:
  "(wf_host s \<and> kind_of (bridge data) s = Some Bridge
      \<and> (kind_of name s = Some Veth
           \<or> (\<exists>p. peer data = Some p \<and> \<not> check_if_interface_exists name s
                  \<and> \<not> check_if_interface_exists p s \<and> p \<noteq> name)) \<longrightarrow>
      (\<exists>s' dev br. ensure_vnet_veth_interface e (name, data) s = Inr s'
         \<and> link_lookup name s' = [dev] \<and> link_lookup (bridge data) s' = [br]
         \<and> calls s' = calls s
              @ (case stp data of None \<Rightarrow> []
                 | Some b \<Rightarrow> [NdbSetStp (bridge data) (if b then 1 else 0)])
              @ (if \<not> check_if_interface_exists name s \<and> peer data \<noteq> None
                 then [LinkAdd name Veth (peer data)] else [])
              @ [LinkSetIndex dev (Master br), LinkSetIndex dev (State Down),
                 LinkSetIndex dev (Address (random_mac_generator e (mac_draws s))),
                 LinkSetIndex dev (State Up)]
         \<and> mac_draws s' = Suc (mac_draws s)))
   \<and> (veths cfg = Some (before @ (name, data) # rest)
        \<and> bring_up_vnet_interfaces e cfg sniffer s = Inr t \<longrightarrow>
      (\<exists>b u u'.
          for_each (bring_up_vnet_interface e sniffer) (get_vnet_interface_names_from_config e cfg) s
            = Inr b
        \<and> for_each (ensure_vnet_veth_interface e) before
            (logged INFO ''VNet veth config found, ensuring interfaces'' b) = Inr u
        \<and> ensure_vnet_veth_interface e (name, data) u = Inr u'
        \<and> for_each (ensure_vnet_veth_interface e) rest u' = Inr t
        \<and> calls u' = calls u
            @ (case stp data of None \<Rightarrow> []
               | Some b \<Rightarrow> [NdbSetStp (bridge data) (if b then 1 else 0)])
            @ (if \<not> check_if_interface_exists name u \<and> peer data \<noteq> None
               then [LinkAdd name Veth (peer data)] else [])
            @ [LinkSetIndex (hd (link_lookup name u')) (Master (hd (link_lookup (bridge data) u'))),
               LinkSetIndex (hd (link_lookup name u')) (State Down),
               LinkSetIndex (hd (link_lookup name u')) (Address (random_mac_generator e (mac_draws u))),
               LinkSetIndex (hd (link_lookup name u')) (State Up)]
        \<and> (\<exists>c. calls u = calls b @ c) \<and> (\<exists>c. calls t = calls u' @ c)))"
proof (intro conjI impI)
  assume a: "wf_host s \<and> kind_of (bridge data) s = Some Bridge
      \<and> (kind_of name s = Some Veth
           \<or> (\<exists>p. peer data = Some p \<and> \<not> check_if_interface_exists name s
                  \<and> \<not> check_if_interface_exists p s \<and> p \<noteq> name))"
  then have w: "wf_host s" and k: "kind_of (bridge data) s = Some Bridge"
    and n: "kind_of name s = Some Veth
           \<or> (\<exists>p. peer data = Some p \<and> \<not> check_if_interface_exists name s
                  \<and> \<not> check_if_interface_exists p s \<and> p \<noteq> name)"
    by simp_all
  show "\<exists>s' dev br. ensure_vnet_veth_interface e (name, data) s = Inr s'
         \<and> link_lookup name s' = [dev] \<and> link_lookup (bridge data) s' = [br]
         \<and> calls s' = calls s
              @ (case stp data of None \<Rightarrow> []
                 | Some b \<Rightarrow> [NdbSetStp (bridge data) (if b then 1 else 0)])
              @ (if \<not> check_if_interface_exists name s \<and> peer data \<noteq> None
                 then [LinkAdd name Veth (peer data)] else [])
              @ [LinkSetIndex dev (Master br), LinkSetIndex dev (State Down),
                 LinkSetIndex dev (Address (random_mac_generator e (mac_draws s))),
                 LinkSetIndex dev (State Up)]
         \<and> mac_draws s' = Suc (mac_draws s)"
    using ensure_vnet_veth_interface_ok[OF w k n, of e] by blast
next
  assume a: "veths cfg = Some (before @ (name, data) # rest)
        \<and> bring_up_vnet_interfaces e cfg sniffer s = Inr t"
  let ?names = "get_vnet_interface_names_from_config e cfg"
  obtain b where b: "for_each (bring_up_vnet_interface e sniffer) ?names s = Inr b"
    using a by (cases "for_each (bring_up_vnet_interface e sniffer) ?names s")
      (simp_all add: bring_up_vnet_interfaces_def)
  let ?b0 = "logged INFO ''VNet veth config found, ensuring interfaces'' b"
  have run: "for_each (ensure_vnet_veth_interface e) (before @ (name, data) # rest) ?b0 = Inr t"
    using a bring_up_veths_after_bridges[OF _ b, of "before @ (name, data) # rest"] by simp
  obtain u where u: "for_each (ensure_vnet_veth_interface e) before ?b0 = Inr u"
    using run unfolding for_each_append
    by (cases "for_each (ensure_vnet_veth_interface e) before ?b0") simp_all
  then have run2: "for_each (ensure_vnet_veth_interface e) ((name, data) # rest) u = Inr t"
    using run unfolding for_each_append by simp
  obtain u' where u': "ensure_vnet_veth_interface e (name, data) u = Inr u'"
    using run2 by (cases "ensure_vnet_veth_interface e (name, data) u") simp_all
  then have r: "for_each (ensure_vnet_veth_interface e) rest u' = Inr t"
    using run2 by simp
  have c1: "\<exists>c. calls u = calls b @ c"
    using ensure_vnet_veth_interfaces_calls[OF u] by simp
  have c2: "\<exists>c. calls t = calls u' @ c"
    using ensure_vnet_veth_interfaces_calls[OF r] .
  note tr = ensure_vnet_veth_interface_Inr[OF u']
  show "\<exists>b u u'.
          for_each (bring_up_vnet_interface e sniffer) ?names s = Inr b
        \<and> for_each (ensure_vnet_veth_interface e) before
            (logged INFO ''VNet veth config found, ensuring interfaces'' b) = Inr u
        \<and> ensure_vnet_veth_interface e (name, data) u = Inr u'
        \<and> for_each (ensure_vnet_veth_interface e) rest u' = Inr t
        \<and> calls u' = calls u
            @ (case stp data of None \<Rightarrow> []
               | Some b \<Rightarrow> [NdbSetStp (bridge data) (if b then 1 else 0)])
            @ (if \<not> check_if_interface_exists name u \<and> peer data \<noteq> None
               then [LinkAdd name Veth (peer data)] else [])
            @ [LinkSetIndex (hd (link_lookup name u')) (Master (hd (link_lookup (bridge data) u'))),
               LinkSetIndex (hd (link_lookup name u')) (State Down),
               LinkSetIndex (hd (link_lookup name u')) (Address (random_mac_generator e (mac_draws u))),
               LinkSetIndex (hd (link_lookup name u')) (State Up)]
        \<and> (\<exists>c. calls u = calls b @ c) \<and> (\<exists>c. calls t = calls u' @ c)"
    using b u u' r tr c1 c2 by (intro exI[of _ b] exI[of _ u] exI[of _ u'] conjI)
qed


theorem veth_steps_in_order_witness:
  "wf_host bridges_host \<and> kind_of ''vnet-br1'' bridges_host = Some Bridge
   \<and> \<not> check_if_interface_exists ''vnet-veth1'' bridges_host
   \<and> \<not> check_if_interface_exists ''vnet-veth0'' bridges_host
   \<and> (\<exists>s' dev br.
         ensure_vnet_veth_interface example_env
           (''vnet-veth1'', \<lparr>bridge = ''vnet-br1'', peer = Some ''vnet-veth0'', stp = Some True\<rparr>)
           bridges_host = Inr s'
       \<and> calls s' = [NdbSetStp ''vnet-br1'' 1, LinkAdd ''vnet-veth1'' Veth (Some ''vnet-veth0''),
                     LinkSetIndex dev (Master br), LinkSetIndex dev (State Down),
                     LinkSetIndex dev (Address ''00:16:3e:00:00:02''), LinkSetIndex dev (State Up)])
   \<and> bring_up_vnet_interfaces example_env example_config False empty_host
       = Inr (host_at (bring_up_vnet_interfaces example_env example_config False empty_host))
   \<and> (\<exists>u. ensure_vnet_veth_interface example_env
              (''vnet-veth0'', \<lparr>bridge = ''vnet-br0'', peer = None, stp = None\<rparr>) u
            = Inr (host_at (bring_up_vnet_interfaces example_env example_config False empty_host))
          \<and> calls (host_at (bring_up_vnet_interfaces example_env example_config False empty_host))
              = calls u @ [LinkSetIndex 3 (Master 1), LinkSetIndex 3 (State Down),
                           LinkSetIndex 3 (Address ''00:16:3e:00:00:03''), LinkSetIndex 3 (State Up)])
   \<and> drop 14 (calls (host_at (bring_up_vnet_interfaces example_env example_config False empty_host)))
       = [NdbSetStp ''vnet-br1'' 1, LinkAdd ''vnet-veth1'' Veth (Some ''vnet-veth0''),
          LinkSetIndex 4 (Master 2), LinkSetIndex 4 (State Down),
          LinkSetIndex 4 (Address ''00:16:3e:00:00:02''), LinkSetIndex 4 (State Up),
          LinkSetIndex 3 (Master 1), LinkSetIndex 3 (State Down),
          LinkSetIndex 3 (Address ''00:16:3e:00:00:03''), LinkSetIndex 3 (State Up)]"
proof -
  let ?d = "\<lparr>bridge = ''vnet-br1'', peer = Some ''vnet-veth0'', stp = Some True\<rparr>"
  let ?z = "\<lparr>bridge = ''vnet-br0'', peer = None, stp = None\<rparr>"
  let ?T = "host_at (bring_up_vnet_interfaces example_env example_config False empty_host)"
  let ?names = "get_vnet_interface_names_from_config example_env example_config"
  let ?B = "host_at (for_each (bring_up_vnet_interface example_env False) ?names empty_host)"
  let ?U = "host_at (for_each (ensure_vnet_veth_interface example_env) [(''vnet-veth1'', ?d)]
              (logged INFO ''VNet veth config found, ensuring interfaces'' ?B))"
  have w: "wf_host bridges_host" by (simp add: wf_host_def bridges_host_def)
  have k: "kind_of (bridge ?d) bridges_host = Some Bridge"
    by (simp add: kind_of_def bridges_host_def)
  have n: "\<not> check_if_interface_exists ''vnet-veth1'' bridges_host"
    "\<not> check_if_interface_exists ''vnet-veth0'' bridges_host"
    by (simp_all add: exists_iff bridges_host_def)
  have h: "wf_host bridges_host \<and> kind_of (bridge ?d) bridges_host = Some Bridge
      \<and> (kind_of ''vnet-veth1'' bridges_host = Some Veth
         \<or> (\<exists>p. peer ?d = Some p \<and> \<not> check_if_interface_exists ''vnet-veth1'' bridges_host
                \<and> \<not> check_if_interface_exists p bridges_host \<and> p \<noteq> ''vnet-veth1''))"
    using w k n by simp
  have m: "random_mac_generator example_env (mac_draws bridges_host) = ''00:16:3e:00:00:02''"
    by (simp add: example_env_def bridges_host_def two_digits_def digit_char_def)
  have c: "calls bridges_host = []" by (simp add: bridges_host_def)
  note i1 = veth_steps_in_order[where s = bridges_host and data = ?d and name = "''vnet-veth1''"
      and e = example_env, THEN conjunct1, THEN mp, OF h]
  have p1: "\<exists>s' dev br.
         ensure_vnet_veth_interface example_env (''vnet-veth1'', ?d) bridges_host = Inr s'
       \<and> calls s' = [NdbSetStp ''vnet-br1'' 1, LinkAdd ''vnet-veth1'' Veth (Some ''vnet-veth0''),
                     LinkSetIndex dev (Master br), LinkSetIndex dev (State Down),
                     LinkSetIndex dev (Address ''00:16:3e:00:00:02''), LinkSetIndex dev (State Up)]"
    using i1 n m c by auto
  have run: "bring_up_vnet_interfaces example_env example_config False empty_host = Inr ?T"
    by code_simp
  have v: "veths example_config = Some ([(''vnet-veth1'', ?d)] @ (''vnet-veth0'', ?z) # [])"
    by (simp add: example_config_def)
  note i2 = veth_steps_in_order[where cfg = example_config and before = "[(''vnet-veth1'', ?d)]"
      and name = "''vnet-veth0''" and data = ?z and rest = "[]" and e = example_env
      and sniffer = False and s = empty_host and t = ?T, THEN conjunct2, THEN mp, OF conjI[OF v run]]
  obtain b u u' where
    b: "for_each (bring_up_vnet_interface example_env False) ?names empty_host = Inr b"
    and u: "for_each (ensure_vnet_veth_interface example_env) [(''vnet-veth1'', ?d)]
            (logged INFO ''VNet veth config found, ensuring interfaces'' b) = Inr u"
    and u': "ensure_vnet_veth_interface example_env (''vnet-veth0'', ?z) u = Inr u'"
    and r: "for_each (ensure_vnet_veth_interface example_env) [] u' = Inr ?T"
    and tr: "calls u' = calls u
            @ (case stp ?z of None \<Rightarrow> []
               | Some b \<Rightarrow> [NdbSetStp (bridge ?z) (if b then 1 else 0)])
            @ (if \<not> check_if_interface_exists ''vnet-veth0'' u \<and> peer ?z \<noteq> None
               then [LinkAdd ''vnet-veth0'' Veth (peer ?z)] else [])
            @ [LinkSetIndex (hd (link_lookup ''vnet-veth0'' u')) (Master (hd (link_lookup (bridge ?z) u'))),
               LinkSetIndex (hd (link_lookup ''vnet-veth0'' u')) (State Down),
               LinkSetIndex (hd (link_lookup ''vnet-veth0'' u'))
                 (Address (random_mac_generator example_env (mac_draws u))),
               LinkSetIndex (hd (link_lookup ''vnet-veth0'' u')) (State Up)]"
    using i2 by blast
  have hb: "b = ?B" unfolding b by (simp add: host_at_def)
  have hu: "u = ?U" using u unfolding hb by (simp add: host_at_def)
  have hu': "u' = ?T" using r by simp
  have e: "hd (link_lookup ''vnet-veth0'' ?T) = 3" "hd (link_lookup ''vnet-br0'' ?T) = 1"
    "random_mac_generator example_env (mac_draws ?U) = ''00:16:3e:00:00:03''"
    by code_simp+
  have "calls ?T = calls u @ [LinkSetIndex 3 (Master 1), LinkSetIndex 3 (State Down),
                           LinkSetIndex 3 (Address ''00:16:3e:00:00:03''), LinkSetIndex 3 (State Up)]"
    using tr e unfolding hu hu' by simp
  then have p2: "\<exists>u. ensure_vnet_veth_interface example_env (''vnet-veth0'', ?z) u = Inr ?T
          \<and> calls ?T = calls u @ [LinkSetIndex 3 (Master 1), LinkSetIndex 3 (State Down),
                           LinkSetIndex 3 (Address ''00:16:3e:00:00:03''), LinkSetIndex 3 (State Up)]"
    using u' hu' by blast
  have p3: "drop 14 (calls ?T)
       = [NdbSetStp ''vnet-br1'' 1, LinkAdd ''vnet-veth1'' Veth (Some ''vnet-veth0''),
          LinkSetIndex 4 (Master 2), LinkSetIndex 4 (State Down),
          LinkSetIndex 4 (Address ''00:16:3e:00:00:02''), LinkSetIndex 4 (State Up),
          LinkSetIndex 3 (Master 1), LinkSetIndex 3 (State Down),
          LinkSetIndex 3 (Address ''00:16:3e:00:00:03''), LinkSetIndex 3 (State Up)]"
    by code_simp
  have k': "kind_of ''vnet-br1'' bridges_host = Some Bridge" using k by simp
  show ?thesis using w k' n p1 run p2 p3 by (intro conjI)
qed



section \<open>Failures during bring-up\<close>




section \<open>Bring-down\<close>


lemma set_attr_state [simp]: "l_state (set_attr (State st) l) = st"
  by (simp add: set_attr_def)









section \<open>Bring-down\<close>




end
